theory Spec2Isabelle
  imports Main "HOL-Library.AList"
begin

section \<open>Values exchanged with the model and the tool endpoints\<close>

text \<open>
  What \<^verbatim>\<open>json.loads\<close> and \<^verbatim>\<open>response.json()\<close> return: a Python object built from
  dicts, lists, strings, numbers, booleans and \<^verbatim>\<open>None\<close>. A dict is an association list in
  insertion order; a float is kept as its literal, since the agent never computes with it.
\<close>

datatype json =
    JNull
  | JBool bool
  | JInt int
  | JFloat string
  | JString string
  | JArray "json list"
  | JObject "(string \<times> json) list"

text \<open>
  A string that is handed to a JSON decoder, represented by what the decoder makes of it:
  the decoded value, or the text itself when it is not valid JSON.
\<close>

datatype raw_json = ValidJSON json | InvalidJSON string

text \<open>
  The exceptions of the program. \<open>RequestException\<close> stands for the class
  \<^verbatim>\<open>requests.exceptions.RequestException\<close> with its subclass and \<^verbatim>\<open>str(e)\<close>;
  \<open>HTTPException\<close> is FastAPI's, with status code and detail.
\<close>

datatype requests_error = Timeout | ConnectionError | HTTPError | OtherRequestError

datatype exn =
    HTTPException int string
  | ValueError string
  | KeyError string
  | TypeError string
  | IndexError string
  | JSONDecodeError string
  | ValidationError string
  | RequestException requests_error string
  | OtherException string

definition json_loads :: "raw_json \<Rightarrow> exn + json" where
  "json_loads s = (case s of ValidJSON j \<Rightarrow> Inr j | InvalidJSON t \<Rightarrow> Inl (JSONDecodeError t))"

subsection \<open>Python's operators on these values\<close>

text \<open>\<^verbatim>\<open>sub in s\<close> on two strings.\<close>

fun is_substring :: "string \<Rightarrow> string \<Rightarrow> bool" where
  "is_substring sub [] = (sub = [])"
| "is_substring sub (c # cs) = (take (length sub) (c # cs) = sub \<or> is_substring sub cs)"

text \<open>\<^verbatim>\<open>s.replace(old, new)\<close>: every non-overlapping occurrence, from the left.\<close>

function py_replace :: "string \<Rightarrow> string \<Rightarrow> string \<Rightarrow> string" where
  "py_replace old new s =
     (if old = [] then new @ concat (map (\<lambda>c. c # new) s)
      else if s = [] then []
      else if take (length old) s = old then new @ py_replace old new (drop (length old) s)
      else hd s # py_replace old new (tl s))"
  by pat_completeness auto
termination
  by (relation "measure (\<lambda>(old, new, s). length s)") (auto simp: Suc_le_eq)

declare py_replace.simps [simp del]

text \<open>
  \<^verbatim>\<open>key in x\<close> for a string key: key membership on a dict, element membership on a list,
  substring test on a string, \<^verbatim>\<open>TypeError\<close> on a number, a boolean or \<^verbatim>\<open>None\<close>.
\<close>

definition py_contains :: "string \<Rightarrow> json \<Rightarrow> exn + bool" where
  "py_contains key x =
     (case x of
        JObject kvs \<Rightarrow> Inr (key \<in> fst ` set kvs)
      | JArray xs \<Rightarrow> Inr (JString key \<in> set xs)
      | JString s \<Rightarrow> Inr (is_substring key s)
      | _ \<Rightarrow> Inl (TypeError ''argument is not iterable''))"

text \<open>\<^verbatim>\<open>x[key]\<close> for a string key.\<close>

definition py_getitem :: "json \<Rightarrow> string \<Rightarrow> exn + json" where
  "py_getitem x key =
     (case x of
        JObject kvs \<Rightarrow> (case map_of kvs key of None \<Rightarrow> Inl (KeyError key) | Some v \<Rightarrow> Inr v)
      | JArray xs \<Rightarrow> Inl (TypeError ''list indices must be integers or slices, not str'')
      | JString s \<Rightarrow> Inl (TypeError ''string indices must be integers'')
      | _ \<Rightarrow> Inl (TypeError ''object is not subscriptable''))"

text \<open>\<^verbatim>\<open>x[key] = v\<close> for a string key: a dict keeps the position of a key it already has.\<close>

definition py_setitem :: "json \<Rightarrow> string \<Rightarrow> json \<Rightarrow> exn + json" where
  "py_setitem x key v =
     (case x of
        JObject kvs \<Rightarrow> Inr (JObject (AList.update key v kvs))
      | JArray xs \<Rightarrow> Inl (TypeError ''list indices must be integers or slices, not str'')
      | _ \<Rightarrow> Inl (TypeError ''object does not support item assignment''))"

text \<open>Truthiness of an \<^verbatim>\<open>Optional[str]\<close>: \<^verbatim>\<open>None\<close> and the empty string are false.\<close>

definition truthy :: "string option \<Rightarrow> bool" where
  "truthy s = (case s of None \<Rightarrow> False | Some t \<Rightarrow> t \<noteq> [])"

section \<open>The tool catalog\<close>

record property =
  prop_type :: string
  prop_items :: "string option"
  prop_description :: string

record parameter_schema =
  schema_type :: string
  properties :: "(string \<times> property) list"
  required :: "string list"

record tool_def =
  td_name :: string
  td_description :: string
  td_parameters :: parameter_schema
  td_endpoint :: string
  td_method :: string

definition str_prop :: "string \<Rightarrow> property" where
  "str_prop d = \<lparr>prop_type = ''string'', prop_items = None, prop_description = d\<rparr>"

definition num_prop :: "string \<Rightarrow> property" where
  "num_prop d = \<lparr>prop_type = ''number'', prop_items = None, prop_description = d\<rparr>"

definition object_schema :: "(string \<times> property) list \<Rightarrow> parameter_schema" where
  "object_schema ps = \<lparr>schema_type = ''object'', properties = ps, required = map fst ps\<rparr>"

definition backend :: string where
  "backend = ''https://mantlebackend-739298578243.us-central1.run.app''"

definition TOOL_DEFINITIONS :: "(string \<times> tool_def) list" where
  "TOOL_DEFINITIONS =
   [(''transfer'',
     \<lparr>td_name = ''transfer'',
      td_description = ''Transfer tokens from one address to another. Requires privateKey, toAddress, amount, and tokenAddress.'',
      td_parameters = object_schema
        [(''privateKey'', str_prop ''Private key of the sender wallet''),
         (''toAddress'', str_prop ''Recipient wallet address''),
         (''amount'', str_prop ''Amount of tokens to transfer''),
         (''tokenAddress'', str_prop ''Contract address of the token'')],
      td_endpoint = backend @ ''/transfer'',
      td_method = ''POST''\<rparr>),
    (''swap'',
     \<lparr>td_name = ''swap'',
      td_description = ''Swap one token for another. Requires privateKey, tokenIn, tokenOut, amountIn, and slippageTolerance.'',
      td_parameters = object_schema
        [(''privateKey'', str_prop ''Private key of the wallet''),
         (''tokenIn'', str_prop ''Input token contract address''),
         (''tokenOut'', str_prop ''Output token contract address''),
         (''amountIn'', str_prop ''Amount of input tokens''),
         (''slippageTolerance'', num_prop ''Slippage tolerance percentage'')],
      td_endpoint = backend @ ''/swap'',
      td_method = ''POST''\<rparr>),
    (''get_balance'',
     \<lparr>td_name = ''get_balance'',
      td_description = ''Get MNT balance of a wallet address. Requires only the wallet address.'',
      td_parameters = object_schema
        [(''address'', str_prop ''Wallet address to check balance'')],
      td_endpoint = backend @ ''/balance/{address}'',
      td_method = ''GET''\<rparr>),
    (''deploy_erc20'',
     \<lparr>td_name = ''deploy_erc20'',
      td_description = ''Deploy a new ERC-20 token. Requires privateKey, name, symbol, and initialSupply.'',
      td_parameters = object_schema
        [(''privateKey'', str_prop ''Private key of the deployer wallet''),
         (''name'', str_prop ''Token name''),
         (''symbol'', str_prop ''Token symbol''),
         (''initialSupply'', str_prop ''Initial token supply'')],
      td_endpoint = backend @ ''/deploy-token'',
      td_method = ''POST''\<rparr>),
    (''deploy_erc721'',
     \<lparr>td_name = ''deploy_erc721'',
      td_description = ''Deploy a new ERC-721 NFT collection. Requires privateKey, name, and symbol.'',
      td_parameters = object_schema
        [(''privateKey'', str_prop ''Private key of the deployer wallet''),
         (''name'', str_prop ''NFT collection name''),
         (''symbol'', str_prop ''NFT collection symbol'')],
      td_endpoint = backend @ ''/create-nft-collection'',
      td_method = ''POST''\<rparr>),
    (''create_dao'',
     \<lparr>td_name = ''create_dao'',
      td_description = ''Create a new DAO (Decentralized Autonomous Organization). Requires privateKey, name, votingPeriod, and quorumPercentage.'',
      td_parameters = object_schema
        [(''privateKey'', str_prop ''Private key of the DAO creator''),
         (''name'', str_prop ''DAO name''),
         (''votingPeriod'', str_prop ''Voting period in seconds''),
         (''quorumPercentage'', str_prop ''Quorum percentage required for voting'')],
      td_endpoint = backend @ ''/create-dao'',
      td_method = ''POST''\<rparr>),
    (''airdrop'',
     \<lparr>td_name = ''airdrop'',
      td_description = ''Airdrop tokens to multiple recipients. Requires privateKey, recipients (list of addresses), and amount per recipient.'',
      td_parameters = object_schema
        [(''privateKey'', str_prop ''Private key of the sender wallet''),
         (''recipients'', \<lparr>prop_type = ''array'', prop_items = Some ''string'',
                             prop_description = ''List of recipient wallet addresses''\<rparr>),
         (''amount'', str_prop ''Amount to send to each recipient'')],
      td_endpoint = backend @ ''/airdrop'',
      td_method = ''POST''\<rparr>),
    (''fetch_price'',
     \<lparr>td_name = ''fetch_price'',
      td_description = ''Fetch the current price of any cryptocurrency or token. Requires a query string.'',
      td_parameters = object_schema
        [(''query'', str_prop ''Query string for token price (e.g., 'bitcoin current price')'')],
      td_endpoint = backend @ ''/token-price'',
      td_method = ''POST''\<rparr>),
    (''deposit_yield'',
     \<lparr>td_name = ''deposit_yield'',
      td_description = ''Create a deposit with yield prediction. Requires privateKey, tokenAddress, depositAmount, and apyPercent.'',
      td_parameters = object_schema
        [(''privateKey'', str_prop ''Private key of the depositor wallet''),
         (''tokenAddress'', str_prop ''Token contract address to deposit''),
         (''depositAmount'', str_prop ''Amount to deposit''),
         (''apyPercent'', num_prop ''Annual Percentage Yield (APY) percentage'')],
      td_endpoint = backend @ ''/yield'',
      td_method = ''POST''\<rparr>),
    (''wallet_analytics'',
     \<lparr>td_name = ''wallet_analytics'',
      td_description = ''Get wallet analytics including ERC-20 token balances. Requires wallet address.'',
      td_parameters = object_schema
        [(''address'', str_prop ''Wallet address to analyze'')],
      td_endpoint = backend @ ''/api/balance/erc20'',
      td_method = ''POST''\<rparr>)]"

section \<open>The outside world\<close>

text \<open>
  One tool-call request of an assistant turn: its correlation id, the function name and the
  JSON-encoded arguments as the model wrote them.
\<close>

record tool_call =
  tc_id :: string
  tc_name :: string
  tc_arguments :: raw_json

text \<open>
  \<^verbatim>\<open>response.choices[0].message\<close>: its text and its tool calls. \<^verbatim>\<open>None\<close> and the empty list
  are both false in the test \<^verbatim>\<open>if not assistant_message.tool_calls\<close>; both are \<open>[]\<close> here.
\<close>

record assistant_message =
  am_content :: "string option"
  am_tool_calls :: "tool_call list"

text \<open>
  The dict \<^verbatim>\<open>execute_tool\<close> returns: \<^verbatim>\<open>{"success", "tool", "result"}\<close> or
  \<^verbatim>\<open>{"success", "tool", "error"}\<close>. A key that is absent is \<open>None\<close>.
\<close>

record tool_result =
  success :: bool
  tool :: string
  result :: "json option"
  error :: "string option"

text \<open>The entries of \<^verbatim>\<open>all_tool_calls\<close>: \<^verbatim>\<open>{"tool", "parameters"}\<close>.\<close>

record tool_call_record =
  call_tool :: string
  call_parameters :: json

text \<open>
  The entries of \<^verbatim>\<open>messages\<close>: \<open>Msg role content\<close> for the system and user messages,
  \<open>AssistantMsg content tool_calls\<close> for an assistant turn that requests tools, and
  \<open>ToolMsg tool_call_id result\<close> for a tool result, whose content is \<^verbatim>\<open>json.dumps(result)\<close>
  and is kept as the value it serialises.
\<close>

datatype message =
    Msg string string
  | AssistantMsg "string option" "tool_call list"
  | ToolMsg string tool_result

text \<open>The entries \<^verbatim>\<open>get_openai_tools\<close> builds for the provider.\<close>

record openai_function =
  fn_name :: string
  fn_description :: string
  fn_parameters :: parameter_schema

record openai_tool =
  ot_type :: string
  ot_function :: openai_function

text \<open>
  A response object of the \<^verbatim>\<open>requests\<close> library, as far as \<^verbatim>\<open>execute_tool\<close> looks at it:
  \<open>status_error\<close> is the message of the \<^verbatim>\<open>HTTPError\<close> that \<^verbatim>\<open>raise_for_status()\<close> raises
  (\<open>None\<close> when it returns), \<open>json_body\<close> is what \<^verbatim>\<open>json()\<close> returns or raises.
\<close>

record response =
  status_error :: "string option"
  json_body :: "exn + json"

text \<open>\<^verbatim>\<open>requests.post(endpoint, json=parameters, ...)\<close> and \<^verbatim>\<open>requests.get(endpoint, ...)\<close>.\<close>

datatype request = POST string json | GET string

text \<open>
  Every call that leaves the process is recorded, with what came back, in a trace. The
  provider call carries \<^verbatim>\<open>messages\<close> and \<^verbatim>\<open>tools\<close>; model, temperature and tool choice
  are constants of the source.
\<close>

datatype event =
    ProviderCall "message list" "openai_tool list option" "exn + assistant_message"
  | EndpointCall request "exn + response"

text \<open>
  The LLM provider and the tool endpoints are not part of the program: each is a parameter
  that answers a call, given everything that has happened so far, with a value or an
  exception.
\<close>

record env =
  create_completion :: "event list \<Rightarrow> message list \<Rightarrow> openai_tool list option
                          \<Rightarrow> exn + assistant_message"
  send_request :: "event list \<Rightarrow> request \<Rightarrow> exn + response"

definition is_provider_call :: "event \<Rightarrow> bool" where
  "is_provider_call ev = (case ev of ProviderCall m t r \<Rightarrow> True | EndpointCall q r \<Rightarrow> False)"

definition provider_calls :: "event list \<Rightarrow> event list" where
  "provider_calls tr = filter is_provider_call tr"

definition endpoint_calls :: "event list \<Rightarrow> (request \<times> (exn + response)) list" where
  "endpoint_calls tr =
     concat (map (\<lambda>ev. case ev of ProviderCall m t r \<Rightarrow> [] | EndpointCall q r \<Rightarrow> [(q, r)]) tr)"

section \<open>Flow Compiler\<close>

record ToolConnection =
  conn_tool :: string
  next_tool :: "string option"

text \<open>
  The loop that \<^verbatim>\<open>build_system_prompt\<close> and \<^verbatim>\<open>chat_with_agent\<close> both start with:
  \<^verbatim>\<open>
    for conn in tool_connections:
        unique_tools.add(conn.tool)
        if conn.next_tool:
            unique_tools.add(conn.next_tool)
            tool_flow[conn.tool] = conn.next_tool
  \<close>
  One step of it is \<open>add_connection\<close>; \<open>extract_tools\<close> runs it from the empty set and the
  empty dict. The dict is an association list in insertion order.
\<close>

definition add_connection ::
  "string set \<times> (string \<times> string) list \<Rightarrow> ToolConnection
     \<Rightarrow> string set \<times> (string \<times> string) list" where
  "add_connection acc conn =
     (case acc of (unique_tools, tool_flow) \<Rightarrow>
        (case next_tool conn of
           None \<Rightarrow> (insert (conn_tool conn) unique_tools, tool_flow)
         | Some n \<Rightarrow>
             if n \<noteq> [] then
               (insert n (insert (conn_tool conn) unique_tools),
                AList.update (conn_tool conn) n tool_flow)
             else (insert (conn_tool conn) unique_tools, tool_flow)))"

definition extract_tools ::
  "ToolConnection list \<Rightarrow> string set \<times> (string \<times> string) list" where
  "extract_tools tool_connections = foldl add_connection ({}, []) tool_connections"

text \<open>
  \<^verbatim>\<open>build_system_prompt\<close>. Python does not fix the order in which a set is iterated; the
  order is the parameter \<open>order\<close>, which lists the elements of a set.
\<close>

definition prompt_header :: string where
  "prompt_header = ''You are an AI agent for the Mantle blockchain platform. You help users perform blockchain operations using the tools available to you.\<newline>\<newline>AVAILABLE TOOLS:\<newline>''"

definition prompt_sequential :: string where
  "prompt_sequential = ''\<newline>SEQUENTIAL EXECUTION INSTRUCTIONS - CRITICAL:\<newline>1. When tools are connected sequentially, you MUST execute ALL tools in the chain\<newline>2. After completing one tool, IMMEDIATELY proceed to call the next tool in the sequence\<newline>3. DO NOT wait for user confirmation between sequential tool calls\<newline>4. Execute all sequential tools in ONE conversation turn\<newline>5. Only provide a final summary after ALL sequential tools have been completed\<newline>6. If you have all the required parameters for the entire sequence, execute all tools immediately\<newline>''"

definition prompt_independent :: string where
  "prompt_independent = ''\<newline>INSTRUCTIONS:\<newline>1. You can perform any of the available operations based on user requests\<newline>2. Ask for required parameters if not provided\<newline>3. Execute the appropriate tool based on user needs\<newline>4. Provide clear results and next steps\<newline>''"

definition prompt_rules :: string where
  "prompt_rules = ''\<newline>IMPORTANT RULES:\<newline>- Only use the tools that are available to you\<newline>- Always ask for required parameters before making tool calls\<newline>- Be conversational and helpful\<newline>- If a privateKey is needed and provided in the context, use it\<newline>- Provide transaction hashes and explorer links when available\<newline>- Explain what each operation does in simple terms\<newline>- For sequential executions, complete the ENTIRE chain before responding\<newline>''"

definition tool_line :: "string \<Rightarrow> string" where
  "tool_line tool_name =
     (case map_of TOOL_DEFINITIONS tool_name of
        None \<Rightarrow> []
      | Some tool_def \<Rightarrow> ''\<newline>- '' @ tool_name @ '': '' @ td_description tool_def @ ''\<newline>'')"

definition flow_line :: "string \<times> string \<Rightarrow> string" where
  "flow_line kv =
     ''- After '' @ fst kv @ '' completes, YOU MUST IMMEDIATELY call '' @ snd kv @ ''\<newline>''"

definition build_system_prompt ::
  "(string set \<Rightarrow> string list) \<Rightarrow> ToolConnection list \<Rightarrow> string" where
  "build_system_prompt order tool_connections =
     (case extract_tools tool_connections of (unique_tools, tool_flow) \<Rightarrow>
        let has_sequential = list_ex (\<lambda>conn. truthy (next_tool conn)) tool_connections
        in prompt_header
           @ concat (map tool_line (order unique_tools))
           @ (if has_sequential then
                ''\<newline>\<newline>TOOL EXECUTION FLOW:\<newline>''
                @ ''Some tools are connected in sequence. You MUST execute them in the specified order:\<newline>''
                @ concat (map flow_line tool_flow)
                @ prompt_sequential
              else prompt_independent)
           @ prompt_rules)"

section \<open>Tool Invoker\<close>

text \<open>
  Lines 259 to 265 of \<^verbatim>\<open>execute_tool\<close>: the endpoint and the parameters after the path
  placeholder has been handled.
  \<^verbatim>\<open>
    if "{address}" in endpoint:
        if "address" in parameters:
            endpoint = endpoint.replace("{address}", parameters["address"])
            if method == "GET":
                parameters = {}
  \<close>
\<close>

definition substitute_address :: "string \<Rightarrow> string \<Rightarrow> json \<Rightarrow> exn + (string \<times> json)" where
  "substitute_address endpoint method parameters =
     (if is_substring ''{address}'' endpoint then
        (case py_contains ''address'' parameters of
           Inl e \<Rightarrow> Inl e
         | Inr present \<Rightarrow>
             if present then
               (case py_getitem parameters ''address'' of
                  Inl e \<Rightarrow> Inl e
                | Inr v \<Rightarrow>
                    (case v of
                       JString a \<Rightarrow>
                         Inr (py_replace ''{address}'' a endpoint,
                              if method = ''GET'' then JObject [] else parameters)
                     | _ \<Rightarrow> Inl (TypeError ''replace() argument 2 must be str'')))
             else Inr (endpoint, parameters))
      else Inr (endpoint, parameters))"

text \<open>
  The body of the \<^verbatim>\<open>try\<close> once the request has been answered, and the \<^verbatim>\<open>except\<close> clause:
  a \<^verbatim>\<open>RequestException\<close> becomes a failed result, any other exception propagates.
\<close>

definition interpret_response :: "string \<Rightarrow> exn + response \<Rightarrow> exn + tool_result" where
  "interpret_response tool_name answer =
     (let attempt =
        (case answer of
           Inl e \<Rightarrow> Inl e
         | Inr response \<Rightarrow>
             (case status_error response of
                Some msg \<Rightarrow> Inl (RequestException HTTPError msg)
              | None \<Rightarrow>
                  (case json_body response of
                     Inl e \<Rightarrow> Inl e
                   | Inr body \<Rightarrow>
                       Inr \<lparr>success = True, tool = tool_name, result = Some body, error = None\<rparr>)))
      in case attempt of
           Inl (RequestException k msg) \<Rightarrow>
             Inr \<lparr>success = False, tool = tool_name, result = None, error = Some msg\<rparr>
         | Inl e \<Rightarrow> Inl e
         | Inr r \<Rightarrow> Inr r)"

definition perform :: "env \<Rightarrow> event list \<Rightarrow> string \<Rightarrow> request \<Rightarrow> (exn + tool_result) \<times> event list" where
  "perform env tr tool_name req =
     (let answer = send_request env tr req
      in (interpret_response tool_name answer, tr @ [EndpointCall req answer]))"

definition execute_tool ::
  "env \<Rightarrow> event list \<Rightarrow> string \<Rightarrow> json \<Rightarrow> (exn + tool_result) \<times> event list" where
  "execute_tool env tr tool_name parameters =
     (case map_of TOOL_DEFINITIONS tool_name of
        None \<Rightarrow> (Inl (ValueError (''Unknown tool: '' @ tool_name)), tr)
      | Some tool_def \<Rightarrow>
          (case substitute_address (td_endpoint tool_def) (td_method tool_def) parameters of
             Inl e \<Rightarrow> (Inl e, tr)
           | Inr (endpoint, params) \<Rightarrow>
               if td_method tool_def = ''POST'' then perform env tr tool_name (POST endpoint params)
               else if td_method tool_def = ''GET'' then perform env tr tool_name (GET endpoint)
               else (Inl (ValueError (''Unsupported HTTP method: '' @ td_method tool_def)), tr)))"

definition get_openai_tools :: "string list \<Rightarrow> openai_tool list" where
  "get_openai_tools tool_names =
     concat (map (\<lambda>tool_name.
        case map_of TOOL_DEFINITIONS tool_name of
          None \<Rightarrow> []
        | Some tool_def \<Rightarrow>
            [\<lparr>ot_type = ''function'',
              ot_function = \<lparr>fn_name = td_name tool_def,
                             fn_description = td_description tool_def,
                             fn_parameters = td_parameters tool_def\<rparr>\<rparr>]) tool_names)"

section \<open>Conversation Driver\<close>

text \<open>The variables the loop of \<^verbatim>\<open>process_agent_conversation\<close> updates.\<close>

record loop_state =
  messages :: "message list"
  all_tool_calls :: "tool_call_record list"
  all_tool_results :: "tool_result list"

text \<open>The dict \<^verbatim>\<open>process_agent_conversation\<close> returns.\<close>

record conversation_result =
  agent_response :: "string option"
  tool_calls :: "tool_call_record list"
  results :: "tool_result list"
  conversation_history :: "message list"

text \<open>
  Lines 372 to 375: the caller's private key is written into the decoded arguments when the
  tool declares a \<^verbatim>\<open>privateKey\<close> property and the arguments have none.
  \<^verbatim>\<open>
    if private_key and "privateKey" in TOOL_DEFINITIONS[function_name]["parameters"]["properties"]:
        if "privateKey" not in function_args:
            function_args["privateKey"] = private_key
  \<close>
\<close>

definition inject_private_key :: "string option \<Rightarrow> string \<Rightarrow> json \<Rightarrow> exn + json" where
  "inject_private_key private_key function_name function_args =
     (case private_key of
        None \<Rightarrow> Inr function_args
      | Some pk \<Rightarrow>
          if pk = [] then Inr function_args
          else
            (case map_of TOOL_DEFINITIONS function_name of
               None \<Rightarrow> Inl (KeyError function_name)
             | Some tool_def \<Rightarrow>
                 if ''privateKey'' \<in> fst ` set (properties (td_parameters tool_def)) then
                   (case py_contains ''privateKey'' function_args of
                      Inl e \<Rightarrow> Inl e
                    | Inr present \<Rightarrow>
                        if present then Inr function_args
                        else py_setitem function_args ''privateKey'' (JString pk))
                 else Inr function_args))"

text \<open>The body of \<^verbatim>\<open>for tool_call in assistant_message.tool_calls\<close>, lines 369 to 391.\<close>

definition handle_tool_call ::
  "env \<Rightarrow> string option \<Rightarrow> tool_call \<Rightarrow> loop_state \<Rightarrow> event list
     \<Rightarrow> (exn + loop_state) \<times> event list" where
  "handle_tool_call env private_key tc st tr =
     (let function_name = tc_name tc
      in case json_loads (tc_arguments tc) of
           Inl e \<Rightarrow> (Inl e, tr)
         | Inr decoded \<Rightarrow>
             (case inject_private_key private_key function_name decoded of
                Inl e \<Rightarrow> (Inl e, tr)
              | Inr function_args \<Rightarrow>
                  (let st1 = st\<lparr>all_tool_calls := all_tool_calls st
                                  @ [\<lparr>call_tool = function_name, call_parameters = function_args\<rparr>]\<rparr>
                   in case execute_tool env tr function_name function_args of
                        (Inl e, tr') \<Rightarrow> (Inl e, tr')
                      | (Inr res, tr') \<Rightarrow>
                          (Inr (st1\<lparr>all_tool_results := all_tool_results st1 @ [res],
                                    messages := messages st1 @ [ToolMsg (tc_id tc) res]\<rparr>),
                           tr'))))"

fun handle_tool_calls ::
  "env \<Rightarrow> string option \<Rightarrow> tool_call list \<Rightarrow> loop_state \<Rightarrow> event list
     \<Rightarrow> (exn + loop_state) \<times> event list" where
  "handle_tool_calls env private_key [] st tr = (Inr st, tr)"
| "handle_tool_calls env private_key (tc # tcs) st tr =
     (case handle_tool_call env private_key tc st tr of
        (Inl e, tr') \<Rightarrow> (Inl e, tr')
      | (Inr st', tr') \<Rightarrow> handle_tool_calls env private_key tcs st' tr')"

text \<open>Lines 393 to 402: the forced-continuation directive.\<close>

definition directive :: "string \<Rightarrow> message" where
  "directive nxt =
     Msg ''system'' (''IMPORTANT: You must now immediately call the '' @ nxt
       @ '' tool as it is next in the sequential flow. Do not ask for confirmation, proceed with the execution.'')"

definition continue_flow :: "(string \<times> string) list \<Rightarrow> loop_state \<Rightarrow> exn + loop_state" where
  "continue_flow tool_flow st =
     (if all_tool_calls st = [] then Inl (IndexError ''list index out of range'')
      else
        (let last_tool_executed = call_tool (last (all_tool_calls st))
         in case map_of tool_flow last_tool_executed of
              None \<Rightarrow> Inr st
            | Some nxt \<Rightarrow> Inr (st\<lparr>messages := messages st @ [directive nxt]\<rparr>)))"

definition max_iterations_notice :: string where
  "max_iterations_notice = ''Maximum iterations reached. Please try again with a simpler request.''"

definition finish :: "string option \<Rightarrow> loop_state \<Rightarrow> conversation_result" where
  "finish answer st =
     \<lparr>agent_response = answer, tool_calls = all_tool_calls st, results = all_tool_results st,
      conversation_history = messages st\<rparr>"

text \<open>
  One pass through the body of \<^verbatim>\<open>while iteration < max_iterations\<close> after the counter has
  been incremented: the provider call, then either the final answer or the batch of tool
  calls and the directive. \<open>Return\<close> leaves the function with a value, \<open>Raise\<close> with an
  exception, \<open>Continue\<close> goes back to the loop test.
\<close>

datatype step = Return conversation_result | Raise exn | Continue loop_state

definition iteration_body ::
  "env \<Rightarrow> openai_tool list \<Rightarrow> (string \<times> string) list \<Rightarrow> string option \<Rightarrow> loop_state
     \<Rightarrow> event list \<Rightarrow> step \<times> event list" where
  "iteration_body env openai_tools tool_flow private_key st tr =
     (let tools = (if openai_tools = [] then None else Some openai_tools);
          reply = create_completion env tr (messages st) tools;
          tr1 = tr @ [ProviderCall (messages st) tools reply]
      in case reply of
           Inl e \<Rightarrow> (Raise e, tr1)
         | Inr msg \<Rightarrow>
             if am_tool_calls msg = [] then (Return (finish (am_content msg) st), tr1)
             else
               (case handle_tool_calls env private_key (am_tool_calls msg)
                       (st\<lparr>messages := messages st
                             @ [AssistantMsg (am_content msg) (am_tool_calls msg)]\<rparr>) tr1 of
                  (Inl e, tr2) \<Rightarrow> (Raise e, tr2)
                | (Inr st2, tr2) \<Rightarrow>
                    (case continue_flow tool_flow st2 of
                       Inl e \<Rightarrow> (Raise e, tr2)
                     | Inr st3 \<Rightarrow> (Continue st3, tr2))))"

function process_loop ::
  "env \<Rightarrow> openai_tool list \<Rightarrow> (string \<times> string) list \<Rightarrow> string option \<Rightarrow> int \<Rightarrow> int
     \<Rightarrow> loop_state \<Rightarrow> event list \<Rightarrow> (exn + conversation_result) \<times> event list" where
  "process_loop env openai_tools tool_flow private_key max_iterations iteration st tr =
     (if iteration < max_iterations then
        (case iteration_body env openai_tools tool_flow private_key st tr of
           (Return r, tr') \<Rightarrow> (Inr r, tr')
         | (Raise e, tr') \<Rightarrow> (Inl e, tr')
         | (Continue st', tr') \<Rightarrow>
             process_loop env openai_tools tool_flow private_key max_iterations (iteration + 1)
               st' tr')
      else (Inr (finish (Some max_iterations_notice) st), tr))"
  by pat_completeness auto
termination
  by (relation "measure (\<lambda>(env, openai_tools, tool_flow, private_key, max_iterations, iteration,
                             st, tr). nat (max_iterations - iteration))") auto

declare process_loop.simps [simp del]

definition process_agent_conversation ::
  "env \<Rightarrow> string \<Rightarrow> string \<Rightarrow> string list \<Rightarrow> (string \<times> string) list \<Rightarrow> string option \<Rightarrow> int
     \<Rightarrow> (exn + conversation_result) \<times> event list" where
  "process_agent_conversation env system_prompt user_message available_tools tool_flow
       private_key max_iterations =
     (let system_prompt' =
            (case private_key of
               None \<Rightarrow> system_prompt
             | Some pk \<Rightarrow>
                 if pk = [] then system_prompt
                 else system_prompt
                      @ ''\<newline>\<newline>CONTEXT: User's private key is available: '' @ pk);
          openai_tools = get_openai_tools available_tools
      in process_loop env openai_tools tool_flow private_key max_iterations 0
           \<lparr>messages = [Msg ''system'' system_prompt', Msg ''user'' user_message],
            all_tool_calls = [], all_tool_results = []\<rparr> [])"

section \<open>The inbound chat operation\<close>

record AgentRequest =
  tools :: "ToolConnection list"
  user_message :: string
  private_key :: "string option"

record AgentResponse =
  resp_agent_response :: string
  resp_tool_calls :: "tool_call_record list"
  resp_results :: "tool_result list"

text \<open>
  \<^verbatim>\<open>
    for tool in available_tools:
        if tool not in TOOL_DEFINITIONS:
            raise HTTPException(status_code=400, detail=f"Unknown tool: {tool}")
  \<close>
\<close>

fun validate_tools :: "string list \<Rightarrow> exn option" where
  "validate_tools [] = None"
| "validate_tools (t # ts) =
     (if map_of TOOL_DEFINITIONS t = None then Some (HTTPException 400 (''Unknown tool: '' @ t))
      else validate_tools ts)"

text \<open>
  The body of the \<^verbatim>\<open>try\<close> in \<^verbatim>\<open>chat_with_agent\<close>. The response model declares
  \<^verbatim>\<open>agent_response: str\<close>, so building it from a reply without text fails validation.
  \<open>order\<close> is the order in which Python iterates a set.
\<close>

definition chat_body ::
  "(string set \<Rightarrow> string list) \<Rightarrow> env \<Rightarrow> AgentRequest \<Rightarrow> (exn + AgentResponse) \<times> event list" where
  "chat_body order env request =
     (case extract_tools (tools request) of (unique_tools, tool_flow) \<Rightarrow>
        (let available_tools = order unique_tools
         in case validate_tools available_tools of
              Some e \<Rightarrow> (Inl e, [])
            | None \<Rightarrow>
                (let system_prompt = build_system_prompt order (tools request)
                 in case process_agent_conversation env system_prompt (user_message request)
                           available_tools tool_flow (private_key request) 10 of
                      (Inl e, tr) \<Rightarrow> (Inl e, tr)
                    | (Inr r, tr) \<Rightarrow>
                        (case agent_response r of
                           None \<Rightarrow> (Inl (ValidationError ''agent_response: none is not an allowed value''), tr)
                         | Some answer \<Rightarrow>
                             (Inr \<lparr>resp_agent_response = answer, resp_tool_calls = tool_calls r,
                                   resp_results = results r\<rparr>, tr)))))"

text \<open>
  \<^verbatim>\<open>chat_with_agent\<close>: the body, and \<^verbatim>\<open>except Exception as e: raise HTTPException(500, str(e))\<close>
  around all of it. \<open>str_exn\<close> is Python's \<^verbatim>\<open>str\<close> on an exception.
\<close>

definition chat_with_agent ::
  "(string set \<Rightarrow> string list) \<Rightarrow> (exn \<Rightarrow> string) \<Rightarrow> env \<Rightarrow> AgentRequest
     \<Rightarrow> (exn + AgentResponse) \<times> event list" where
  "chat_with_agent order str_exn env request =
     (case chat_body order env request of
        (Inl e, tr) \<Rightarrow> (Inl (HTTPException 500 (str_exn e)), tr)
      | (Inr response, tr) \<Rightarrow> (Inr response, tr))"

section \<open>Notions the properties are stated with\<close>

text \<open>
  A list of tool edges, read without the loop: an edge declares a successor when its
  \<open>next_tool\<close> is present and not empty; the tools referenced are all sources and all
  declared successors; the last declared successor of a source is the successor of the last
  edge in list order that names the source and declares one.
\<close>

definition declared_successor :: "ToolConnection \<Rightarrow> string list" where
  "declared_successor conn =
     (case next_tool conn of None \<Rightarrow> [] | Some n \<Rightarrow> if n = [] then [] else [n])"

definition referenced_tools :: "ToolConnection list \<Rightarrow> string list" where
  "referenced_tools cs = map conn_tool cs @ concat (map declared_successor cs)"

definition last_declared_successor :: "ToolConnection list \<Rightarrow> string \<Rightarrow> string option" where
  "last_declared_successor cs src =
     (let declared = concat (map (\<lambda>c. if conn_tool c = src then declared_successor c else []) cs)
      in if declared = [] then None else Some (last declared))"

text \<open>
  The request \<^verbatim>\<open>execute_tool\<close> sends for a tool name and parameters, or the exception it
  raises before sending one: the catalog lookup, the path substitution and the choice of the
  HTTP verb, without the call.
\<close>

definition request_for :: "string \<Rightarrow> json \<Rightarrow> exn + request" where
  "request_for tool_name parameters =
     (case map_of TOOL_DEFINITIONS tool_name of
        None \<Rightarrow> Inl (ValueError (''Unknown tool: '' @ tool_name))
      | Some tool_def \<Rightarrow>
          (case substitute_address (td_endpoint tool_def) (td_method tool_def) parameters of
             Inl e \<Rightarrow> Inl e
           | Inr (endpoint, params) \<Rightarrow>
               if td_method tool_def = ''POST'' then Inr (POST endpoint params)
               else if td_method tool_def = ''GET'' then Inr (GET endpoint)
               else Inl (ValueError (''Unsupported HTTP method: '' @ td_method tool_def))))"

text \<open>
  The parameters a tool call is invoked with: its arguments decoded, then the private key
  written in where lines 372 to 375 do so.
\<close>

definition resolve_arguments :: "string option \<Rightarrow> tool_call \<Rightarrow> exn + json" where
  "resolve_arguments pk tc =
     (case json_loads (tc_arguments tc) of
        Inl e \<Rightarrow> Inl e
      | Inr decoded \<Rightarrow> inject_private_key pk (tc_name tc) decoded)"

text \<open>
  The tool calls the model emitted during a conversation, read off the trace: the tool calls
  of every reply of the provider, in order.
\<close>

definition emitted_calls :: "event list \<Rightarrow> tool_call list" where
  "emitted_calls tr =
     concat (map (\<lambda>ev. case ev of
                         ProviderCall m t r \<Rightarrow> (case r of Inl e \<Rightarrow> [] | Inr msg \<Rightarrow> am_tool_calls msg)
                       | EndpointCall q r \<Rightarrow> []) tr)"

text \<open>
  \<open>logged_as\<close>: a call record is the record of an emitted tool call. \<open>outcome_of\<close>: a
  result is the outcome of invoking the tool of a call record in an endpoint exchange, that
  is, the request of the exchange is the one built from the record and the result is the
  normalised answer.
\<close>

definition logged_as :: "string option \<Rightarrow> tool_call \<Rightarrow> tool_call_record \<Rightarrow> bool" where
  "logged_as pk tc rec =
     (call_tool rec = tc_name tc \<and> resolve_arguments pk tc = Inr (call_parameters rec))"

definition outcome_of ::
  "tool_call_record \<Rightarrow> request \<times> (exn + response) \<Rightarrow> tool_result \<Rightarrow> bool" where
  "outcome_of rec ex res =
     (request_for (call_tool rec) (call_parameters rec) = Inr (fst ex)
      \<and> interpret_response (call_tool rec) (snd ex) = Inr res)"

text \<open>
  The events of a list of endpoint exchanges; the tool messages of a batch and its results;
  the \<^verbatim>\<open>tools\<close> argument of the provider call; the messages the forced-continuation step
  appends.
\<close>

definition endpoint_events :: "(request \<times> (exn + response)) list \<Rightarrow> event list" where
  "endpoint_events exs = map (\<lambda>ex. EndpointCall (fst ex) (snd ex)) exs"

definition tool_messages :: "tool_call list \<Rightarrow> tool_result list \<Rightarrow> message list" where
  "tool_messages tcs ress = map (\<lambda>p. ToolMsg (tc_id (fst p)) (snd p)) (zip tcs ress)"

definition tools_arg :: "openai_tool list \<Rightarrow> openai_tool list option" where
  "tools_arg openai_tools = (if openai_tools = [] then None else Some openai_tools)"

definition flow_directive :: "(string \<times> string) list \<Rightarrow> string \<Rightarrow> message list" where
  "flow_directive tool_flow last_tool =
     (case map_of tool_flow last_tool of None \<Rightarrow> [] | Some nxt \<Rightarrow> [directive nxt])"

text \<open>
  The invariant of the loop: the call log is the record of the emitted calls, in order, and
  the call log, the result log and the endpoint exchanges of the trace agree position by
  position.
\<close>

definition consistent :: "string option \<Rightarrow> loop_state \<Rightarrow> event list \<Rightarrow> bool" where
  "consistent pk st tr =
     (list_all2 (logged_as pk) (emitted_calls tr) (all_tool_calls st)
      \<and> length (all_tool_results st) = length (all_tool_calls st)
      \<and> length (endpoint_calls tr) = length (all_tool_calls st)
      \<and> list_all2 (\<lambda>rec p. outcome_of rec (fst p) (snd p)) (all_tool_calls st)
           (zip (endpoint_calls tr) (all_tool_results st)))"

text \<open>
  A trace is faithful to the environment when every answer it records is the answer the
  environment gives to that call after the events before it.
\<close>

fun faithful :: "env \<Rightarrow> event list \<Rightarrow> event list \<Rightarrow> bool" where
  "faithful env pre [] = True"
| "faithful env pre (ev # evs) =
     ((case ev of
         ProviderCall m t r \<Rightarrow> r = create_completion env pre m t
       | EndpointCall q a \<Rightarrow> a = send_request env pre q)
      \<and> faithful env (pre @ [ev]) evs)"

text \<open>A result record is the normalised form of the answer of an endpoint exchange.\<close>

definition answer_recorded :: "request \<times> (exn + response) \<Rightarrow> tool_result \<Rightarrow> bool" where
  "answer_recorded ex res = (interpret_response (tool res) (snd ex) = Inr res)"



text \<open>A string occurs in a JSON value as one of its string values, at any depth.\<close>

fun mentions :: "string \<Rightarrow> json \<Rightarrow> bool" where
  "mentions s (JString t) = (s = t)"
| "mentions s (JArray xs) = list_ex (mentions s) xs"
| "mentions s (JObject kvs) = list_ex (\<lambda>kv. mentions s (snd kv)) kvs"
| "mentions s _ = False"

text \<open>The catalog declares a \<^verbatim>\<open>privateKey\<close> property for the tool.\<close>

definition declares_private_key :: "string \<Rightarrow> bool" where
  "declares_private_key tool_name =
     (case map_of TOOL_DEFINITIONS tool_name of
        None \<Rightarrow> False
      | Some tool_def \<Rightarrow> ''privateKey'' \<in> fst ` set (properties (td_parameters tool_def)))"

text \<open>
  The secret is due for a tool and its emitted arguments when the secret is not empty, the
  tool declares \<^verbatim>\<open>privateKey\<close> and the arguments are a dict without that key.
  \<open>with_secret\<close> is what a tool-call record must then hold: the emitted arguments with the
  secret added under \<^verbatim>\<open>privateKey\<close> as the last field when it is due, and the emitted
  arguments as they are when it is not.
\<close>

definition secret_due :: "string option \<Rightarrow> string \<Rightarrow> json \<Rightarrow> bool" where
  "secret_due secret tool_name emitted =
     (case secret of
        None \<Rightarrow> False
      | Some key \<Rightarrow>
          (case emitted of
             JObject kvs \<Rightarrow>
               key \<noteq> [] \<and> declares_private_key tool_name \<and> ''privateKey'' \<notin> fst ` set kvs
           | _ \<Rightarrow> False))"

definition with_secret :: "string option \<Rightarrow> string \<Rightarrow> json \<Rightarrow> json" where
  "with_secret secret tool_name emitted =
     (case secret of
        None \<Rightarrow> emitted
      | Some key \<Rightarrow>
          (case emitted of
             JObject kvs \<Rightarrow>
               if secret_due secret tool_name emitted
               then JObject (kvs @ [(''privateKey'', JString key)]) else emitted
           | _ \<Rightarrow> emitted))"

text \<open>
  \<open>records_call\<close>: a record of the tool-call log is the record of an emitted tool call. It
  names the tool of the call, its parameters are the emitted arguments with the secret added
  exactly when it is due, and it holds the secret as a value exactly when the secret was
  added or the model emitted it.
\<close>

definition records_call :: "string option \<Rightarrow> tool_call \<Rightarrow> tool_call_record \<Rightarrow> bool" where
  "records_call secret tc rec =
     (case tc_arguments tc of
        InvalidJSON s \<Rightarrow> False
      | ValidJSON emitted \<Rightarrow>
          call_tool rec = tc_name tc
          \<and> call_parameters rec = with_secret secret (tc_name tc) emitted
          \<and> (case secret of
                None \<Rightarrow> True
              | Some key \<Rightarrow>
                  mentions key (call_parameters rec)
                    = (secret_due secret (tc_name tc) emitted \<or> mentions key emitted)))"

section \<open>Example conversations\<close>

text \<open>
  \<open>scripted_env\<close> is a provider that gives the replies of a script in order, one per call,
  and an endpoint that always gives the same answer. \<open>listing\<close> is an iteration order: a
  set of names drawn from a list is iterated in the order of that list. \<open>exn_message\<close>
  renders an exception as the text it carries.
\<close>

definition scripted_env :: "assistant_message list \<Rightarrow> (exn + response) \<Rightarrow> env" where
  "scripted_env script answer =
     \<lparr>create_completion = (\<lambda>tr msgs tls.
          case drop (length (provider_calls tr)) script of
            [] \<Rightarrow> Inl (OtherException ''provider unavailable'')
          | reply # _ \<Rightarrow> Inr reply),
      send_request = (\<lambda>tr req. answer)\<rparr>"

definition listing :: "string list \<Rightarrow> string set \<Rightarrow> string list" where
  "listing names S = filter (\<lambda>n. n \<in> S) names"

definition exn_message :: "exn \<Rightarrow> string" where
  "exn_message e =
     (case e of
        HTTPException code detail \<Rightarrow> detail
      | ValueError m \<Rightarrow> m
      | KeyError m \<Rightarrow> m
      | TypeError m \<Rightarrow> m
      | IndexError m \<Rightarrow> m
      | JSONDecodeError m \<Rightarrow> m
      | ValidationError m \<Rightarrow> m
      | RequestException k m \<Rightarrow> m
      | OtherException m \<Rightarrow> m)"

text \<open>
  A balance request against an endpoint that times out, and \<open>insistent_env\<close>, a model that
  requests the balance on every turn.
\<close>

definition balance_call :: tool_call where
  "balance_call = \<lparr>tc_id = ''call_1'', tc_name = ''get_balance'',
     tc_arguments = ValidJSON (JObject [(''address'', JString ''0xabc'')])\<rparr>"

definition balance_tool :: openai_tool where
  "balance_tool =
     \<lparr>ot_type = ''function'',
      ot_function =
        \<lparr>fn_name = ''get_balance'',
         fn_description = ''Get MNT balance of a wallet address. Requires only the wallet address.'',
         fn_parameters = object_schema [(''address'', str_prop ''Wallet address to check balance'')]\<rparr>\<rparr>"

definition timeout_answer :: "exn + response" where
  "timeout_answer = Inl (RequestException Timeout ''timed out'')"

definition balance_exchange :: event where
  "balance_exchange = EndpointCall (GET (backend @ ''/balance/0xabc'')) timeout_answer"

definition insistent_reply :: assistant_message where
  "insistent_reply = \<lparr>am_content = None, am_tool_calls = [balance_call]\<rparr>"

definition insistent_env :: env where
  "insistent_env =
     \<lparr>create_completion = (\<lambda>tr msgs tls. Inr insistent_reply),
      send_request = (\<lambda>tr req. timeout_answer)\<rparr>"

definition timed_out :: tool_result where
  "timed_out = \<lparr>success = False, tool = ''get_balance'', result = None, error = Some ''timed out''\<rparr>"

definition balance_record :: tool_call_record where
  "balance_record = \<lparr>call_tool = ''get_balance'',
     call_parameters = JObject [(''address'', JString ''0xabc'')]\<rparr>"

definition insistent_history :: "message list" where
  "insistent_history =
     [Msg ''system'' ''p'', Msg ''user'' ''balance of 0xabc?'',
      AssistantMsg None [balance_call], ToolMsg ''call_1'' timed_out,
      AssistantMsg None [balance_call], ToolMsg ''call_1'' timed_out]"

definition insistent_result :: conversation_result where
  "insistent_result =
     \<lparr>agent_response = Some max_iterations_notice,
      tool_calls = [balance_record, balance_record],
      results = [timed_out, timed_out],
      conversation_history = insistent_history\<rparr>"

definition insistent_trace :: "event list" where
  "insistent_trace =
     [ProviderCall (take 2 insistent_history) (Some [balance_tool]) (Inr insistent_reply),
      balance_exchange,
      ProviderCall (take 4 insistent_history) (Some [balance_tool]) (Inr insistent_reply),
      balance_exchange]"









text \<open>
  An edge list in which the last edge for \<open>transfer\<close> declares no successor, after one that
  declares \<open>swap\<close>, and in which no edge for \<open>get_balance\<close> declares one.
\<close>

definition open_ended_edges :: "ToolConnection list" where
  "open_ended_edges =
     [\<lparr>conn_tool = ''get_balance'', next_tool = None\<rparr>,
      \<lparr>conn_tool = ''transfer'', next_tool = Some ''swap''\<rparr>,
      \<lparr>conn_tool = ''transfer'', next_tool = None\<rparr>]"




text \<open>
  Requests: one that names a tool the catalog does not have, one for a balance, where the
  model's second turn has arguments that are not valid JSON, and one that supplies a secret,
  where the model requests a transfer without a \<^verbatim>\<open>privateKey\<close> and the endpoint answers
  with a receipt.
\<close>

definition mint_request :: AgentRequest where
  "mint_request =
     \<lparr>tools = [\<lparr>conn_tool = ''mint'', next_tool = None\<rparr>],
      user_message = ''mint a token'', private_key = None\<rparr>"

definition balance_request :: AgentRequest where
  "balance_request =
     \<lparr>tools = [\<lparr>conn_tool = ''get_balance'', next_tool = None\<rparr>],
      user_message = ''balance of 0xabc?'', private_key = None\<rparr>"

definition malformed_call :: tool_call where
  "malformed_call = \<lparr>tc_id = ''call_3'', tc_name = ''get_balance'',
     tc_arguments = InvalidJSON ''{address: 0xabc''\<rparr>"

definition malformed_reply :: assistant_message where
  "malformed_reply = \<lparr>am_content = None, am_tool_calls = [malformed_call]\<rparr>"

definition bare_transfer_arguments :: json where
  "bare_transfer_arguments =
     JObject [(''toAddress'', JString ''0xdef''), (''amount'', JString ''5''),
              (''tokenAddress'', JString ''0xtok'')]"

definition bare_transfer_call :: tool_call where
  "bare_transfer_call = \<lparr>tc_id = ''call_4'', tc_name = ''transfer'',
     tc_arguments = ValidJSON bare_transfer_arguments\<rparr>"

definition secret_request :: AgentRequest where
  "secret_request =
     \<lparr>tools = [\<lparr>conn_tool = ''transfer'', next_tool = None\<rparr>],
      user_message = ''send 5 tokens to 0xdef'', private_key = Some ''0xSECRET''\<rparr>"

definition receipt_answer :: "exn + response" where
  "receipt_answer =
     Inr \<lparr>status_error = None, json_body = Inr (JObject [(''txHash'', JString ''0x77'')])\<rparr>"

definition secret_script :: "assistant_message list" where
  "secret_script =
     [\<lparr>am_content = None, am_tool_calls = [bare_transfer_call]\<rparr>,
      \<lparr>am_content = Some ''Transferred.'', am_tool_calls = []\<rparr>]"

definition secret_response :: AgentResponse where
  "secret_response =
     \<lparr>resp_agent_response = ''Transferred.'',
      resp_tool_calls =
        [\<lparr>call_tool = ''transfer'',
          call_parameters =
            JObject [(''toAddress'', JString ''0xdef''), (''amount'', JString ''5''),
                     (''tokenAddress'', JString ''0xtok''), (''privateKey'', JString ''0xSECRET'')]\<rparr>],
      resp_results =
        [\<lparr>success = True, tool = ''transfer'',
          result = Some (JObject [(''txHash'', JString ''0x77'')]), error = None\<rparr>]\<rparr>"

section \<open>Flow Compiler: tool set and successor map\<close>

lemma add_connection_fst:
  "fst (add_connection (U, F) c) = insert (conn_tool c) U \<union> set (declared_successor c)"
  by (auto simp: add_connection_def declared_successor_def split: option.splits)

lemma add_connection_snd:
  "map_of (snd (add_connection (U, F) c)) =
     (\<lambda>s. if conn_tool c = s \<and> declared_successor c \<noteq> [] then next_tool c else map_of F s)"
  by (auto simp: add_connection_def declared_successor_def update_conv' fun_eq_iff split: option.splits)

lemma add_connection_distinct:
  "distinct (map fst F) \<Longrightarrow> distinct (map fst (snd (add_connection (U, F) c)))"
  by (auto simp: add_connection_def distinct_update split: option.splits)

lemma foldl_add_connection:
  "fst (foldl add_connection (U, F) cs) = U \<union> set (referenced_tools cs)"
  "map_of (snd (foldl add_connection (U, F) cs)) =
     (\<lambda>s. case last_declared_successor cs s of None \<Rightarrow> map_of F s | Some n \<Rightarrow> Some n)"
  "distinct (map fst F) \<Longrightarrow> distinct (map fst (snd (foldl add_connection (U, F) cs)))"
proof -
  have "fst (foldl add_connection (U, F) cs) = U \<union> set (referenced_tools cs)
      \<and> map_of (snd (foldl add_connection (U, F) cs)) =
          (\<lambda>s. case last_declared_successor cs s of None \<Rightarrow> map_of F s | Some n \<Rightarrow> Some n)
      \<and> (distinct (map fst F) \<longrightarrow> distinct (map fst (snd (foldl add_connection (U, F) cs))))"
  proof (induction cs arbitrary: U F)
    case Nil
    show ?case by (simp add: referenced_tools_def last_declared_successor_def)
  next
    case (Cons c cs)
    obtain U' F' where step: "add_connection (U, F) c = (U', F')" by (cases "add_connection (U, F) c")
    have U': "U' = insert (conn_tool c) U \<union> set (declared_successor c)"
      using add_connection_fst [of U F c] step by simp
    have F': "map_of F' = (\<lambda>s. if conn_tool c = s \<and> declared_successor c \<noteq> [] then next_tool c else map_of F s)"
      using add_connection_snd [of U F c] step by simp
    have D': "distinct (map fst F) \<Longrightarrow> distinct (map fst F')"
      using add_connection_distinct [of F U c] step by simp
    have ds: "declared_successor c \<noteq> [] \<Longrightarrow> \<exists>n. next_tool c = Some n"
      by (auto simp: declared_successor_def split: option.splits)
    have lds: "\<And>s. last_declared_successor (c # cs) s =
        (case last_declared_successor cs s of
           None \<Rightarrow> if conn_tool c = s \<and> declared_successor c \<noteq> [] then next_tool c else None
         | Some n \<Rightarrow> Some n)"
    proof -
      fix s
      have "declared_successor c = [] \<or> (\<exists>n. declared_successor c = [n] \<and> next_tool c = Some n)"
        by (cases "next_tool c") (simp_all add: declared_successor_def)
      then show "last_declared_successor (c # cs) s =
        (case last_declared_successor cs s of
           None \<Rightarrow> if conn_tool c = s \<and> declared_successor c \<noteq> [] then next_tool c else None
         | Some n \<Rightarrow> Some n)"
        by (cases "conn_tool c = s") (auto simp: last_declared_successor_def)
    qed
    have IH: "fst (foldl add_connection (U', F') cs) = U' \<union> set (referenced_tools cs)
      \<and> map_of (snd (foldl add_connection (U', F') cs)) =
          (\<lambda>s. case last_declared_successor cs s of None \<Rightarrow> map_of F' s | Some n \<Rightarrow> Some n)
      \<and> (distinct (map fst F') \<longrightarrow> distinct (map fst (snd (foldl add_connection (U', F') cs))))"
      by (rule Cons.IH)
    have refd: "set (referenced_tools (c # cs)) = insert (conn_tool c) (set (declared_successor c)) \<union> set (referenced_tools cs)"
      by (auto simp: referenced_tools_def)
    show ?case
    proof (intro conjI impI)
      show "fst (foldl add_connection (U, F) (c # cs)) = U \<union> set (referenced_tools (c # cs))"
        using IH by (simp add: step U' refd Un_ac)
      show "map_of (snd (foldl add_connection (U, F) (c # cs))) =
          (\<lambda>s. case last_declared_successor (c # cs) s of None \<Rightarrow> map_of F s | Some n \<Rightarrow> Some n)"
      proof (rule ext)
        fix s
        have eq: "map_of (snd (foldl add_connection (U', F') cs)) s =
            (case last_declared_successor cs s of None \<Rightarrow> map_of F' s | Some n \<Rightarrow> Some n)"
          using IH by simp
        show "map_of (snd (foldl add_connection (U, F) (c # cs))) s =
            (case last_declared_successor (c # cs) s of None \<Rightarrow> map_of F s | Some n \<Rightarrow> Some n)"
        proof (cases "last_declared_successor cs s")
          case None
          show ?thesis
          proof (cases "conn_tool c = s \<and> declared_successor c \<noteq> []")
            case True
            then obtain n where "next_tool c = Some n" using ds by blast
            with True None eq show ?thesis by (simp add: step F' lds)
          next
            case False
            with None eq show ?thesis by (auto simp add: step F' lds)
          qed
        next
          case (Some n)
          with eq show ?thesis by (simp add: step lds)
        qed
      qed
      show "distinct (map fst (snd (foldl add_connection (U, F) (c # cs))))" if "distinct (map fst F)"
        using IH D' that by (simp add: step)
    qed
  qed
  then show "fst (foldl add_connection (U, F) cs) = U \<union> set (referenced_tools cs)"
    "map_of (snd (foldl add_connection (U, F) cs)) =
     (\<lambda>s. case last_declared_successor cs s of None \<Rightarrow> map_of F s | Some n \<Rightarrow> Some n)"
  "distinct (map fst F) \<Longrightarrow> distinct (map fst (snd (foldl add_connection (U, F) cs)))"
    by blast+
qed

text \<open>
  C7 as stated fails on the edge list \<open>get_balance \<rightarrow> (none)\<close>, \<open>transfer \<rightarrow> swap\<close>,
  \<open>transfer \<rightarrow> (none)\<close>: the last edge of the list, which is the last edge that names
  \<open>transfer\<close>, declares no successor, and the successor map sends \<open>transfer\<close> to \<open>swap\<close>;
  \<open>get_balance\<close> is a source, it is in the tool set, and the successor map has no entry for
  it.
\<close>

theorem successor_of_last_edge_counterexample:
  "last open_ended_edges = \<lparr>conn_tool = ''transfer'', next_tool = None\<rparr>
   \<and> map_of (snd (extract_tools open_ended_edges)) ''transfer'' = Some ''swap''
   \<and> ''get_balance'' \<in> conn_tool ` set open_ended_edges
   \<and> ''get_balance'' \<in> fst (extract_tools open_ended_edges)
   \<and> map_of (snd (extract_tools open_ended_edges)) ''get_balance'' = None"
  by (simp add: open_ended_edges_def extract_tools_def add_connection_def)

text \<open>
  C7, amended. For every ordered list of tool edges, the tool set computed is the set of all
  sources and all declared successors, and the successor map is a dict (no key twice) that
  sends a source to the successor of the last edge in list order that names the source and
  declares a successor (last write wins among the edges that declare one); a source for
  which no edge declares a successor has no entry. An edge declares a successor when its
  \<^verbatim>\<open>next_tool\<close> is neither \<^verbatim>\<open>None\<close> nor the empty string.
\<close>

theorem extract_tools_set_and_last_write_wins:
  "fst (extract_tools cs) = set (referenced_tools cs)
   \<and> map_of (snd (extract_tools cs)) = last_declared_successor cs
   \<and> distinct (map fst (snd (extract_tools cs)))"
proof -
  have "map_of (snd (extract_tools cs)) s = last_declared_successor cs s" for s
    by (cases "last_declared_successor cs s")
       (simp_all add: extract_tools_def foldl_add_connection(2))
  then show ?thesis
    by (auto simp: extract_tools_def foldl_add_connection(1) foldl_add_connection(3))
qed

section \<open>Conversation Driver: what one batch and one iteration do\<close>

lemma execute_tool_request_for:
  "execute_tool env tr n p =
     (case request_for n p of Inl e \<Rightarrow> (Inl e, tr) | Inr q \<Rightarrow> perform env tr n q)"
  by (simp add: execute_tool_def request_for_def split: option.splits sum.splits prod.splits)

lemma handle_tool_call_unfold:
  "handle_tool_call env pk tc st tr =
     (case resolve_arguments pk tc of
        Inl e \<Rightarrow> (Inl e, tr)
      | Inr args \<Rightarrow>
          (case request_for (tc_name tc) args of
             Inl e \<Rightarrow> (Inl e, tr)
           | Inr q \<Rightarrow>
               (case interpret_response (tc_name tc) (send_request env tr q) of
                  Inl e \<Rightarrow> (Inl e, tr @ [EndpointCall q (send_request env tr q)])
                | Inr res \<Rightarrow>
                    (Inr (st\<lparr>all_tool_calls := all_tool_calls st
                                @ [\<lparr>call_tool = tc_name tc, call_parameters = args\<rparr>],
                             all_tool_results := all_tool_results st @ [res],
                             messages := messages st @ [ToolMsg (tc_id tc) res]\<rparr>),
                     tr @ [EndpointCall q (send_request env tr q)]))))"
  by (simp add: handle_tool_call_def resolve_arguments_def execute_tool_request_for perform_def Let_def
           split: sum.splits)

lemma trace_append [simp]:
  "emitted_calls (tr @ tr') = emitted_calls tr @ emitted_calls tr'"
  "endpoint_calls (tr @ tr') = endpoint_calls tr @ endpoint_calls tr'"
  "provider_calls (tr @ tr') = provider_calls tr @ provider_calls tr'"
  by (simp_all add: emitted_calls_def endpoint_calls_def provider_calls_def)

lemma trace_endpoint_events [simp]:
  "emitted_calls (endpoint_events exs) = []"
  "endpoint_calls (endpoint_events exs) = exs"
  "provider_calls (endpoint_events exs) = []"
  by (induction exs)
     (simp_all add: emitted_calls_def endpoint_calls_def provider_calls_def endpoint_events_def
        is_provider_call_def)

lemma trace_provider_call [simp]:
  "emitted_calls (ProviderCall m t r # tr) =
     (case r of Inl e \<Rightarrow> [] | Inr msg \<Rightarrow> am_tool_calls msg) @ emitted_calls tr"
  "endpoint_calls (ProviderCall m t r # tr) = endpoint_calls tr"
  "provider_calls (ProviderCall m t r # tr) = ProviderCall m t r # provider_calls tr"
  by (simp_all add: emitted_calls_def endpoint_calls_def provider_calls_def is_provider_call_def)

lemma trace_Nil [simp]:
  "emitted_calls [] = []" "endpoint_calls [] = []" "provider_calls [] = []"
  by (simp_all add: emitted_calls_def endpoint_calls_def provider_calls_def)

lemma handle_tool_calls_Inr:
  "handle_tool_calls env pk tcs st tr = (Inr st', tr') \<Longrightarrow>
     \<exists>recs ress exs.
       st' = st\<lparr>all_tool_calls := all_tool_calls st @ recs,
                 all_tool_results := all_tool_results st @ ress,
                 messages := messages st @ tool_messages tcs ress\<rparr>
       \<and> tr' = tr @ endpoint_events exs
       \<and> list_all2 (logged_as pk) tcs recs
       \<and> length ress = length tcs \<and> length exs = length tcs
       \<and> list_all2 (\<lambda>rec p. outcome_of rec (fst p) (snd p)) recs (zip exs ress)"
proof (induction tcs arbitrary: st tr)
  case Nil
  then show ?case
    by (auto simp: tool_messages_def endpoint_events_def intro!: exI [of _ "[]"])
next
  case (Cons tc tcs)
  from Cons.prems obtain st1 tr1 where
    one: "handle_tool_call env pk tc st tr = (Inr st1, tr1)" and
    rest: "handle_tool_calls env pk tcs st1 tr1 = (Inr st', tr')"
    by (auto split: prod.splits sum.splits)
  from one obtain args q res where
    args: "resolve_arguments pk tc = Inr args" and
    q: "request_for (tc_name tc) args = Inr q" and
    res: "interpret_response (tc_name tc) (send_request env tr q) = Inr res" and
    st1: "st1 = st\<lparr>all_tool_calls := all_tool_calls st
                        @ [\<lparr>call_tool = tc_name tc, call_parameters = args\<rparr>],
                     all_tool_results := all_tool_results st @ [res],
                     messages := messages st @ [ToolMsg (tc_id tc) res]\<rparr>" and
    tr1: "tr1 = tr @ [EndpointCall q (send_request env tr q)]"
    by (auto simp: handle_tool_call_unfold split: sum.splits)
  from Cons.IH [OF rest] obtain recs ress exs where
    IH: "st' = st1\<lparr>all_tool_calls := all_tool_calls st1 @ recs,
                 all_tool_results := all_tool_results st1 @ ress,
                 messages := messages st1 @ tool_messages tcs ress\<rparr>"
       "tr' = tr1 @ endpoint_events exs"
       "list_all2 (logged_as pk) tcs recs"
       "length ress = length tcs" "length exs = length tcs"
       "list_all2 (\<lambda>rec p. outcome_of rec (fst p) (snd p)) recs (zip exs ress)"
    by blast
  let ?rec = "\<lparr>call_tool = tc_name tc, call_parameters = args\<rparr>"
  let ?ex = "(q, send_request env tr q)"
  show ?case
  proof (intro exI [of _ "?rec # recs"] exI [of _ "res # ress"] exI [of _ "?ex # exs"] conjI)
    show "st' = st\<lparr>all_tool_calls := all_tool_calls st @ ?rec # recs,
                 all_tool_results := all_tool_results st @ res # ress,
                 messages := messages st @ tool_messages (tc # tcs) (res # ress)\<rparr>"
      using IH(1) by (simp add: st1 tool_messages_def)
    show "tr' = tr @ endpoint_events (?ex # exs)"
      using IH(2) by (simp add: tr1 endpoint_events_def)
    show "list_all2 (logged_as pk) (tc # tcs) (?rec # recs)"
      using IH(3) args by (simp add: logged_as_def)
    show "length (res # ress) = length (tc # tcs)" using IH(4) by simp
    show "length (?ex # exs) = length (tc # tcs)" using IH(5) by simp
    show "list_all2 (\<lambda>rec p. outcome_of rec (fst p) (snd p)) (?rec # recs) (zip (?ex # exs) (res # ress))"
      using IH(6) q res by (simp add: outcome_of_def)
  qed
qed

lemma handle_tool_call_trace:
  "handle_tool_call env pk tc st tr = (out, tr') \<Longrightarrow> \<exists>exs. tr' = tr @ endpoint_events exs"
proof -
  assume h: "handle_tool_call env pk tc st tr = (out, tr')"
  have "tr' = tr @ endpoint_events [] \<or> (\<exists>ex. tr' = tr @ endpoint_events [ex])"
    using h by (auto simp: handle_tool_call_unfold endpoint_events_def split: sum.splits)
  then show ?thesis by blast
qed

lemma handle_tool_calls_trace:
  "handle_tool_calls env pk tcs st tr = (out, tr') \<Longrightarrow> \<exists>exs. tr' = tr @ endpoint_events exs"
proof (induction tcs arbitrary: st tr)
  case Nil
  then have "tr' = tr @ endpoint_events []" by (simp add: endpoint_events_def)
  then show ?case by blast
next
  case (Cons tc tcs)
  obtain o1 tr1 where one: "handle_tool_call env pk tc st tr = (o1, tr1)"
    by (cases "handle_tool_call env pk tc st tr")
  from handle_tool_call_trace [OF one] obtain exs1 where tr1: "tr1 = tr @ endpoint_events exs1"
    by blast
  show ?case
  proof (cases o1)
    case (Inl e)
    with Cons.prems one have "tr' = tr1" by simp
    with tr1 show ?thesis by blast
  next
    case (Inr st1)
    with Cons.prems one have "handle_tool_calls env pk tcs st1 tr1 = (out, tr')" by simp
    from Cons.IH [OF this] obtain exs2 where "tr' = tr1 @ endpoint_events exs2" by blast
    with tr1 have "tr' = tr @ endpoint_events (exs1 @ exs2)" by (simp add: endpoint_events_def)
    then show ?thesis by blast
  qed
qed

lemma iteration_body_trace:
  "iteration_body env ot flow pk st tr = (out, tr') \<Longrightarrow>
     \<exists>exs. tr' = tr @ ProviderCall (messages st) (tools_arg ot)
                        (create_completion env tr (messages st) (tools_arg ot))
                   # endpoint_events exs"
proof -
  assume h: "iteration_body env ot flow pk st tr = (out, tr')"
  let ?reply = "create_completion env tr (messages st) (tools_arg ot)"
  let ?tr1 = "tr @ [ProviderCall (messages st) (tools_arg ot) ?reply]"
  show ?thesis
  proof (cases ?reply)
    case (Inl e)
    with h have "tr' = ?tr1" by (simp add: iteration_body_def tools_arg_def Let_def)
    then have "tr' = tr @ ProviderCall (messages st) (tools_arg ot) ?reply # endpoint_events []"
      by (simp add: endpoint_events_def)
    then show ?thesis by blast
  next
    case (Inr msg)
    show ?thesis
    proof (cases "am_tool_calls msg = []")
      case True
      with h Inr have "tr' = ?tr1" by (simp add: iteration_body_def tools_arg_def Let_def)
      then have "tr' = tr @ ProviderCall (messages st) (tools_arg ot) ?reply # endpoint_events []"
        by (simp add: endpoint_events_def)
      then show ?thesis by blast
    next
      case False
      obtain o2 tr2 where batch: "handle_tool_calls env pk (am_tool_calls msg)
          (st\<lparr>messages := messages st @ [AssistantMsg (am_content msg) (am_tool_calls msg)]\<rparr>) ?tr1
          = (o2, tr2)"
        by (cases "handle_tool_calls env pk (am_tool_calls msg)
          (st\<lparr>messages := messages st @ [AssistantMsg (am_content msg) (am_tool_calls msg)]\<rparr>) ?tr1")
      from handle_tool_calls_trace [OF batch] obtain exs where tr2: "tr2 = ?tr1 @ endpoint_events exs"
        by blast
      from h Inr False batch have "tr' = tr2"
        by (auto simp: iteration_body_def tools_arg_def Let_def split: sum.splits)
      with tr2 show ?thesis by auto
    qed
  qed
qed

lemma iteration_body_Return:
  "iteration_body env ot flow pk st tr = (Return r, tr') \<Longrightarrow>
     \<exists>msg. create_completion env tr (messages st) (tools_arg ot) = Inr msg
           \<and> am_tool_calls msg = [] \<and> r = finish (am_content msg) st
           \<and> tr' = tr @ [ProviderCall (messages st) (tools_arg ot) (Inr msg)]"
  by (auto simp: iteration_body_def tools_arg_def Let_def split: sum.splits if_splits prod.splits)

lemma iteration_body_Continue:
  assumes "iteration_body env ot flow pk st tr = (Continue st', tr')"
  shows "\<exists>msg recs ress exs.
       create_completion env tr (messages st) (tools_arg ot) = Inr msg
       \<and> am_tool_calls msg \<noteq> []
       \<and> tr' = tr @ ProviderCall (messages st) (tools_arg ot) (Inr msg) # endpoint_events exs
       \<and> list_all2 (logged_as pk) (am_tool_calls msg) recs
       \<and> length ress = length (am_tool_calls msg) \<and> length exs = length (am_tool_calls msg)
       \<and> list_all2 (\<lambda>rec p. outcome_of rec (fst p) (snd p)) recs (zip exs ress)
       \<and> st' = \<lparr>messages = messages st @ [AssistantMsg (am_content msg) (am_tool_calls msg)]
                     @ tool_messages (am_tool_calls msg) ress
                     @ flow_directive flow (tc_name (last (am_tool_calls msg))),
                 all_tool_calls = all_tool_calls st @ recs,
                 all_tool_results = all_tool_results st @ ress\<rparr>"
proof -
  let ?reply = "create_completion env tr (messages st) (tools_arg ot)"
  let ?tr1 = "tr @ [ProviderCall (messages st) (tools_arg ot) ?reply]"
  from assms obtain msg where msg: "?reply = Inr msg" and ne: "am_tool_calls msg \<noteq> []"
    by (auto simp: iteration_body_def tools_arg_def Let_def split: sum.splits if_splits prod.splits)
  let ?st1 = "st\<lparr>messages := messages st @ [AssistantMsg (am_content msg) (am_tool_calls msg)]\<rparr>"
  from assms msg ne obtain st2 where
    batch: "handle_tool_calls env pk (am_tool_calls msg) ?st1 ?tr1 = (Inr st2, tr')" and
    cont: "continue_flow flow st2 = Inr st'"
    by (auto simp: iteration_body_def tools_arg_def Let_def split: sum.splits if_splits prod.splits)
  from handle_tool_calls_Inr [OF batch] obtain recs ress exs where
    b: "st2 = ?st1\<lparr>all_tool_calls := all_tool_calls ?st1 @ recs,
                 all_tool_results := all_tool_results ?st1 @ ress,
                 messages := messages ?st1 @ tool_messages (am_tool_calls msg) ress\<rparr>"
       "tr' = ?tr1 @ endpoint_events exs"
       "list_all2 (logged_as pk) (am_tool_calls msg) recs"
       "length ress = length (am_tool_calls msg)" "length exs = length (am_tool_calls msg)"
       "list_all2 (\<lambda>rec p. outcome_of rec (fst p) (snd p)) recs (zip exs ress)"
    by blast
  from b(3) ne have recs_ne: "recs \<noteq> []" by auto
  from b(3) have len: "length (am_tool_calls msg) = length recs" by (rule list_all2_lengthD)
  have "logged_as pk (last (am_tool_calls msg)) (last recs)"
    using b(3) ne recs_ne len
    by (simp add: last_conv_nth list_all2_conv_all_nth)
  then have last_name: "call_tool (last recs) = tc_name (last (am_tool_calls msg))"
    by (simp add: logged_as_def)
  have st': "st' = \<lparr>messages = messages st @ [AssistantMsg (am_content msg) (am_tool_calls msg)]
                     @ tool_messages (am_tool_calls msg) ress
                     @ flow_directive flow (tc_name (last (am_tool_calls msg))),
                 all_tool_calls = all_tool_calls st @ recs,
                 all_tool_results = all_tool_results st @ ress\<rparr>"
    using cont recs_ne last_name
    by (auto simp: continue_flow_def b(1) flow_directive_def Let_def split: option.splits)
  show ?thesis
    using msg ne b(2-6) st' by (intro exI [of _ msg] exI [of _ recs] exI [of _ ress] exI [of _ exs]) simp
qed

section \<open>Conversation Driver: the loop\<close>

lemma consistent_Continue:
  assumes "consistent pk st tr" and "iteration_body env ot flow pk st tr = (Continue st', tr')"
  shows "consistent pk st' tr'"
proof -
  from iteration_body_Continue [OF assms(2)] obtain msg recs ress exs where
    b: "tr' = tr @ ProviderCall (messages st) (tools_arg ot) (Inr msg) # endpoint_events exs"
       "list_all2 (logged_as pk) (am_tool_calls msg) recs"
       "length ress = length (am_tool_calls msg)" "length exs = length (am_tool_calls msg)"
       "list_all2 (\<lambda>rec p. outcome_of rec (fst p) (snd p)) recs (zip exs ress)"
       "all_tool_calls st' = all_tool_calls st @ recs"
       "all_tool_results st' = all_tool_results st @ ress"
    by force
  have tr': "tr' = tr @ [ProviderCall (messages st) (tools_arg ot) (Inr msg)] @ endpoint_events exs"
    using b(1) by simp
  have em: "emitted_calls tr' = emitted_calls tr @ am_tool_calls msg"
    unfolding tr' by simp
  have ep: "endpoint_calls tr' = endpoint_calls tr @ exs"
    unfolding tr' by simp
  from b(2) have len: "length recs = length (am_tool_calls msg)"
    by (simp add: list_all2_lengthD)
  from assms(1) have c:
    "list_all2 (logged_as pk) (emitted_calls tr) (all_tool_calls st)"
    "length (all_tool_results st) = length (all_tool_calls st)"
    "length (endpoint_calls tr) = length (all_tool_calls st)"
    "list_all2 (\<lambda>rec p. outcome_of rec (fst p) (snd p)) (all_tool_calls st)
           (zip (endpoint_calls tr) (all_tool_results st))"
    by (simp_all add: consistent_def)
  have z: "zip (endpoint_calls tr @ exs) (all_tool_results st @ ress)
      = zip (endpoint_calls tr) (all_tool_results st) @ zip exs ress"
    using c(2) c(3) by simp
  show ?thesis
    unfolding consistent_def em ep b(6) b(7) z
    using c b(2) b(3) b(4) b(5) len by (simp add: list_all2_appendI)
qed

lemma process_loop_consistent:
  "consistent pk st tr \<Longrightarrow> process_loop env ot flow pk mx it st tr = (Inr r, tr') \<Longrightarrow>
     \<exists>answer st'. r = finish answer st' \<and> consistent pk st' tr'"
proof (induction env ot flow pk mx it st tr rule: process_loop.induct)
  case (1 env ot flow pk mx it st tr)
  show ?case
  proof (cases "it < mx")
    case False
    with "1.prems" show ?thesis by (auto simp: process_loop.simps)
  next
    case True
    obtain stp tr1 where body: "iteration_body env ot flow pk st tr = (stp, tr1)"
      by (cases "iteration_body env ot flow pk st tr")
    show ?thesis
    proof (cases stp)
      case (Return r1)
      with body True "1.prems"(2) have r: "r = r1" "tr' = tr1" by (simp_all add: process_loop.simps)
      from iteration_body_Return [of env ot flow pk st tr r1 tr1] body Return obtain msg where
        m: "r1 = finish (am_content msg) st" "am_tool_calls msg = []"
           "tr1 = tr @ [ProviderCall (messages st) (tools_arg ot) (Inr msg)]" by auto
      have "consistent pk st tr1"
        using "1.prems"(1) m(2) unfolding consistent_def m(3) by simp
      with r m(1) show ?thesis by blast
    next
      case (Raise e)
      with body True "1.prems"(2) show ?thesis by (simp add: process_loop.simps)
    next
      case (Continue st1)
      with body True "1.prems"(2) have
        rec: "process_loop env ot flow pk mx (it + 1) st1 tr1 = (Inr r, tr')"
        by (simp add: process_loop.simps)
      have "consistent pk st1 tr1"
        using consistent_Continue [OF "1.prems"(1)] body Continue by simp
      from "1.IH" [OF True body [symmetric] Continue this rec] show ?thesis .
    qed
  qed
qed

lemma process_loop_provider_calls:
  "process_loop env ot flow pk mx it st tr = (out, tr') \<Longrightarrow>
     length (provider_calls tr') \<le> length (provider_calls tr) + nat (mx - it)"
proof (induction env ot flow pk mx it st tr rule: process_loop.induct)
  case (1 env ot flow pk mx it st tr)
  show ?case
  proof (cases "it < mx")
    case False
    with "1.prems" show ?thesis by (auto simp: process_loop.simps)
  next
    case True
    obtain stp tr1 where body: "iteration_body env ot flow pk st tr = (stp, tr1)"
      by (cases "iteration_body env ot flow pk st tr")
    from iteration_body_trace [OF body] obtain exs where
      "tr1 = tr @ [ProviderCall (messages st) (tools_arg ot)
                        (create_completion env tr (messages st) (tools_arg ot))]
                   @ endpoint_events exs" by auto
    then have one: "length (provider_calls tr1) = length (provider_calls tr) + 1" by simp
    have step: "nat (mx - it) = nat (mx - (it + 1)) + 1" using True by simp
    show ?thesis
    proof (cases stp)
      case (Return r1)
      with body True "1.prems" have "tr' = tr1" by (simp add: process_loop.simps)
      with one step show ?thesis by simp
    next
      case (Raise e)
      with body True "1.prems" have "tr' = tr1" by (simp add: process_loop.simps)
      with one step show ?thesis by simp
    next
      case (Continue st1)
      with body True "1.prems" have
        rec: "process_loop env ot flow pk mx (it + 1) st1 tr1 = (out, tr')"
        by (simp add: process_loop.simps)
      from "1.IH" [OF True body [symmetric] Continue rec] one step show ?thesis by simp
    qed
  qed
qed



lemma trace_endpoint_call [simp]:
  "emitted_calls (EndpointCall q a # tr) = emitted_calls tr"
  "endpoint_calls (EndpointCall q a # tr) = (q, a) # endpoint_calls tr"
  "provider_calls (EndpointCall q a # tr) = provider_calls tr"
  by (simp_all add: emitted_calls_def endpoint_calls_def provider_calls_def is_provider_call_def)

lemma faithful_append:
  "faithful env pre (xs @ ys) = (faithful env pre xs \<and> faithful env (pre @ xs) ys)"
  by (induction xs arbitrary: pre) auto

lemma handle_tool_call_faithful:
  "faithful env [] tr \<Longrightarrow> handle_tool_call env pk tc st tr = (out, tr') \<Longrightarrow> faithful env [] tr'"
  by (auto simp: handle_tool_call_unfold faithful_append split: sum.splits)

lemma handle_tool_calls_faithful:
  "faithful env [] tr \<Longrightarrow> handle_tool_calls env pk tcs st tr = (out, tr') \<Longrightarrow> faithful env [] tr'"
proof (induction tcs arbitrary: st tr)
  case Nil
  then show ?case by simp
next
  case (Cons tc tcs)
  obtain o1 tr1 where one: "handle_tool_call env pk tc st tr = (o1, tr1)"
    by (cases "handle_tool_call env pk tc st tr")
  have f1: "faithful env [] tr1" by (rule handle_tool_call_faithful [OF Cons.prems(1) one])
  show ?case
  proof (cases o1)
    case (Inl e)
    with Cons.prems(2) one have "tr' = tr1" by simp
    with f1 show ?thesis by simp
  next
    case (Inr st1)
    with Cons.prems(2) one have "handle_tool_calls env pk tcs st1 tr1 = (out, tr')" by simp
    from Cons.IH [OF f1 this] show ?thesis .
  qed
qed

lemma iteration_body_faithful:
  assumes "faithful env [] tr" and "iteration_body env ot flow pk st tr = (out, tr')"
  shows "faithful env [] tr'"
proof -
  let ?reply = "create_completion env tr (messages st) (tools_arg ot)"
  let ?tr1 = "tr @ [ProviderCall (messages st) (tools_arg ot) ?reply]"
  have f1: "faithful env [] ?tr1" using assms(1) by (simp add: faithful_append)
  show ?thesis
  proof (cases ?reply)
    case (Inl e)
    with assms(2) have "tr' = ?tr1" by (simp add: iteration_body_def tools_arg_def Let_def)
    with f1 show ?thesis by simp
  next
    case (Inr msg)
    show ?thesis
    proof (cases "am_tool_calls msg = []")
      case True
      with assms(2) Inr have "tr' = ?tr1" by (simp add: iteration_body_def tools_arg_def Let_def)
      with f1 show ?thesis by simp
    next
      case False
      obtain o2 tr2 where batch: "handle_tool_calls env pk (am_tool_calls msg)
          (st\<lparr>messages := messages st @ [AssistantMsg (am_content msg) (am_tool_calls msg)]\<rparr>) ?tr1
          = (o2, tr2)"
        by (cases "handle_tool_calls env pk (am_tool_calls msg)
          (st\<lparr>messages := messages st @ [AssistantMsg (am_content msg) (am_tool_calls msg)]\<rparr>) ?tr1")
      have f2: "faithful env [] tr2" by (rule handle_tool_calls_faithful [OF f1 batch])
      from assms(2) Inr False batch have "tr' = tr2"
        by (auto simp: iteration_body_def tools_arg_def Let_def split: sum.splits)
      with f2 show ?thesis by simp
    qed
  qed
qed

lemma process_loop_faithful:
  "faithful env [] tr \<Longrightarrow> process_loop env ot flow pk mx it st tr = (out, tr') \<Longrightarrow>
     faithful env [] tr'"
proof (induction env ot flow pk mx it st tr rule: process_loop.induct)
  case (1 env ot flow pk mx it st tr)
  show ?case
  proof (cases "it < mx")
    case False
    with "1.prems" show ?thesis by (auto simp: process_loop.simps)
  next
    case True
    obtain stp tr1 where body: "iteration_body env ot flow pk st tr = (stp, tr1)"
      by (cases "iteration_body env ot flow pk st tr")
    have f1: "faithful env [] tr1" by (rule iteration_body_faithful [OF "1.prems"(1) body])
    show ?thesis
    proof (cases stp)
      case (Return r1)
      with body True "1.prems"(2) have "tr' = tr1" by (simp add: process_loop.simps)
      with f1 show ?thesis by simp
    next
      case (Raise e)
      with body True "1.prems"(2) have "tr' = tr1" by (simp add: process_loop.simps)
      with f1 show ?thesis by simp
    next
      case (Continue st1)
      with body True "1.prems"(2) have
        rec: "process_loop env ot flow pk mx (it + 1) st1 tr1 = (out, tr')"
        by (simp add: process_loop.simps)
      from "1.IH" [OF True body [symmetric] Continue f1 rec] show ?thesis .
    qed
  qed
qed

lemma list_all2_zip_nth:
  assumes "list_all2 (\<lambda>x p. P x (fst p) (snd p)) xs (zip ys zs)"
    and "length ys = length xs" and "length zs = length xs" and "i < length xs"
  shows "P (xs ! i) (ys ! i) (zs ! i)"
proof -
  from assms(1) assms(4) have "P (xs ! i) (fst (zip ys zs ! i)) (snd (zip ys zs ! i))"
    by (rule list_all2_nthD)
  moreover have "zip ys zs ! i = (ys ! i, zs ! i)"
    using assms(2-4) by (simp add: nth_zip)
  ultimately show ?thesis by simp
qed

lemma interpret_response_tool:
  "interpret_response n a = Inr res \<Longrightarrow> tool res = n"
  by (auto simp: interpret_response_def Let_def split: sum.splits option.splits exn.splits)

lemma consistent_initial:
  "consistent pk \<lparr>messages = ms, all_tool_calls = [], all_tool_results = []\<rparr> []"
  by (simp add: consistent_def)

lemma process_agent_conversation_consistent:
  assumes "process_agent_conversation env sp um av flow pk mx = (Inr r, tr)"
  shows "\<exists>answer st. r = finish answer st \<and> consistent pk st tr"
  using assms process_loop_consistent [OF consistent_initial]
  by (simp add: process_agent_conversation_def Let_def)

text \<open>
  C1. For every environment (any replies of the model, any answers of the endpoints) and
  every input, \<^verbatim>\<open>process_agent_conversation\<close> is a total function that issues at most
  \<open>max_iterations\<close> provider calls, one per loop iteration; and whenever it returns a value,
  the tool-call log holds, in order, one record for every tool call the model emitted during
  the conversation, and the result log holds, in order, the normalised answer of every
  endpoint exchange that took place.
\<close>

theorem process_agent_conversation_bounded_with_logs:
  assumes "process_agent_conversation env sp um av flow pk mx = (out, tr)"
  shows "length (provider_calls tr) \<le> nat mx
     \<and> (\<forall>r. out = Inr r \<longrightarrow>
           list_all2 (logged_as pk) (emitted_calls tr) (tool_calls r)
           \<and> list_all2 answer_recorded (endpoint_calls tr) (results r))"
proof (intro conjI allI impI)
  show "length (provider_calls tr) \<le> nat mx"
    using assms process_loop_provider_calls [of env "get_openai_tools av" flow pk mx 0 _ "[]" out tr]
    by (simp add: process_agent_conversation_def Let_def)
next
  fix r assume "out = Inr r"
  with assms process_agent_conversation_consistent obtain answer st where
    r: "r = finish answer st" and c: "consistent pk st tr" by blast
  from c show "list_all2 (logged_as pk) (emitted_calls tr) (tool_calls r)"
    by (simp add: consistent_def r finish_def)
  from c have len: "length (endpoint_calls tr) = length (all_tool_results st)"
    and all: "list_all2 (\<lambda>rec p. outcome_of rec (fst p) (snd p)) (all_tool_calls st)
           (zip (endpoint_calls tr) (all_tool_results st))"
    by (simp_all add: consistent_def)
  have "answer_recorded (endpoint_calls tr ! i) (all_tool_results st ! i)"
    if "i < length (all_tool_results st)" for i
  proof -
    from c have "length (all_tool_results st) = length (all_tool_calls st)"
      by (simp add: consistent_def)
    with all that len have "outcome_of (all_tool_calls st ! i) (endpoint_calls tr ! i) (all_tool_results st ! i)"
      by (intro list_all2_zip_nth [where P = outcome_of]) simp_all
    then show ?thesis
      using interpret_response_tool by (fastforce simp: outcome_of_def answer_recorded_def)
  qed
  with len show "list_all2 answer_recorded (endpoint_calls tr) (results r)"
    by (simp add: list_all2_conv_all_nth r finish_def)
qed

text \<open>
  C2. In every value \<^verbatim>\<open>process_agent_conversation\<close> returns, the tool-call list and the
  result list have the same length, the names in the call list are the names the model
  emitted, in emission order across turns, and at every position the result is the outcome of
  invoking the tool of the call record at that position: the request built from that record
  is the one sent in the endpoint exchange at that position, the result is the normalised
  answer of that exchange, and it carries the same tool name.
\<close>

theorem tool_logs_paired_in_emission_order:
  assumes "process_agent_conversation env sp um av flow pk mx = (Inr r, tr)"
  shows "length (results r) = length (tool_calls r)
     \<and> length (endpoint_calls tr) = length (tool_calls r)
     \<and> faithful env [] tr
     \<and> map call_tool (tool_calls r) = map tc_name (emitted_calls tr)
     \<and> (\<forall>i < length (tool_calls r).
           tool (results r ! i) = call_tool (tool_calls r ! i)
           \<and> outcome_of (tool_calls r ! i) (endpoint_calls tr ! i) (results r ! i))"
proof -
  from process_agent_conversation_consistent [OF assms] obtain answer st where
    r: "r = finish answer st" and c: "consistent pk st tr" by blast
  from c have
    lg: "list_all2 (logged_as pk) (emitted_calls tr) (all_tool_calls st)" and
    l1: "length (all_tool_results st) = length (all_tool_calls st)" and
    l2: "length (endpoint_calls tr) = length (all_tool_calls st)" and
    oc: "list_all2 (\<lambda>rec p. outcome_of rec (fst p) (snd p)) (all_tool_calls st)
           (zip (endpoint_calls tr) (all_tool_results st))"
    by (simp_all add: consistent_def)
  have names: "map call_tool (all_tool_calls st) = map tc_name (emitted_calls tr)"
    using lg by (induction rule: list_all2_induct) (simp_all add: logged_as_def)
  have f: "faithful env [] tr"
    using assms process_loop_faithful [of env "[]"]
    by (simp add: process_agent_conversation_def Let_def)
  have pair: "tool (all_tool_results st ! i) = call_tool (all_tool_calls st ! i)
       \<and> outcome_of (all_tool_calls st ! i) (endpoint_calls tr ! i) (all_tool_results st ! i)"
    if "i < length (all_tool_calls st)" for i
  proof -
    from oc that l1 l2 have o: "outcome_of (all_tool_calls st ! i) (endpoint_calls tr ! i) (all_tool_results st ! i)"
      by (intro list_all2_zip_nth [where P = outcome_of]) simp_all
    then have "tool (all_tool_results st ! i) = call_tool (all_tool_calls st ! i)"
      using interpret_response_tool by (fastforce simp: outcome_of_def)
    with o show ?thesis by simp
  qed
  show ?thesis
    using l1 l2 f names pair by (simp add: r finish_def)
qed

section \<open>A model that never stops requesting tools\<close>

lemma catalog_get_balance:
  "map_of TOOL_DEFINITIONS ''get_balance'' = Some
     \<lparr>td_name = ''get_balance'',
      td_description = ''Get MNT balance of a wallet address. Requires only the wallet address.'',
      td_parameters = object_schema
        [(''address'', str_prop ''Wallet address to check balance'')],
      td_endpoint = backend @ ''/balance/{address}'',
      td_method = ''GET''\<rparr>"
  by (simp add: TOOL_DEFINITIONS_def)

lemma request_for_balance:
  "request_for ''get_balance'' (JObject [(''address'', JString ''0xabc'')])
     = Inr (GET (backend @ ''/balance/0xabc''))"
  by (simp add: request_for_def catalog_get_balance substitute_address_def py_contains_def
        py_getitem_def backend_def py_replace.simps)

lemma resolve_balance_call:
  "resolve_arguments None balance_call = Inr (JObject [(''address'', JString ''0xabc'')])"
  by (simp add: resolve_arguments_def balance_call_def json_loads_def inject_private_key_def)

lemma balance_call_sel:
  "tc_name balance_call = ''get_balance''" "tc_id balance_call = ''call_1''"
  by (simp_all add: balance_call_def)

lemma get_openai_tools_balance: "get_openai_tools [''get_balance''] = [balance_tool]"
  by (simp add: get_openai_tools_def catalog_get_balance balance_tool_def)

lemmas run_simps = process_agent_conversation_def process_loop.simps iteration_body_def
  handle_tool_call_unfold interpret_response_def continue_flow_def finish_def Let_def

lemma insistent_run:
  "process_agent_conversation insistent_env ''p'' ''balance of 0xabc?'' [''get_balance''] [] None 2
     = (Inr insistent_result, insistent_trace)"
  by (simp add: run_simps insistent_env_def insistent_reply_def get_openai_tools_balance
        resolve_balance_call request_for_balance balance_call_sel timed_out_def
        balance_record_def insistent_result_def insistent_trace_def insistent_history_def
        balance_exchange_def timeout_answer_def)

theorem process_agent_conversation_bounded_with_logs_witness:
  "process_agent_conversation insistent_env ''p'' ''balance of 0xabc?'' [''get_balance''] [] None 2
     = (Inr insistent_result, insistent_trace)
   \<and> length (provider_calls insistent_trace) \<le> nat 2
   \<and> list_all2 (logged_as None) (emitted_calls insistent_trace) (tool_calls insistent_result)
   \<and> list_all2 answer_recorded (endpoint_calls insistent_trace) (results insistent_result)
   \<and> agent_response insistent_result = Some max_iterations_notice
   \<and> length (tool_calls insistent_result) = 2"
  using process_agent_conversation_bounded_with_logs [OF insistent_run] insistent_run
  by (simp add: insistent_result_def)

theorem tool_logs_paired_in_emission_order_witness:
  "process_agent_conversation insistent_env ''p'' ''balance of 0xabc?'' [''get_balance''] [] None 2
     = (Inr insistent_result, insistent_trace)
   \<and> length (results insistent_result) = length (tool_calls insistent_result)
   \<and> length (tool_calls insistent_result) = 2
   \<and> faithful insistent_env [] insistent_trace
   \<and> map call_tool (tool_calls insistent_result) = map tc_name (emitted_calls insistent_trace)
   \<and> tool (results insistent_result ! 0) = call_tool (tool_calls insistent_result ! 0)
   \<and> outcome_of (tool_calls insistent_result ! 0) (endpoint_calls insistent_trace ! 0)
        (results insistent_result ! 0)
   \<and> tool (results insistent_result ! 1) = call_tool (tool_calls insistent_result ! 1)
   \<and> outcome_of (tool_calls insistent_result ! 1) (endpoint_calls insistent_trace ! 1)
        (results insistent_result ! 1)"
proof -
  note t = tool_logs_paired_in_emission_order [OF insistent_run]
  have len: "length (tool_calls insistent_result) = 2" by (simp add: insistent_result_def)
  from t have all: "\<forall>i < length (tool_calls insistent_result).
           tool (results insistent_result ! i) = call_tool (tool_calls insistent_result ! i)
           \<and> outcome_of (tool_calls insistent_result ! i) (endpoint_calls insistent_trace ! i)
                (results insistent_result ! i)" by blast
  have "(0::nat) < length (tool_calls insistent_result)" "(1::nat) < length (tool_calls insistent_result)"
    using len by simp_all
  with all have
    "tool (results insistent_result ! 0) = call_tool (tool_calls insistent_result ! 0)
       \<and> outcome_of (tool_calls insistent_result ! 0) (endpoint_calls insistent_trace ! 0)
            (results insistent_result ! 0)"
    "tool (results insistent_result ! 1) = call_tool (tool_calls insistent_result ! 1)
       \<and> outcome_of (tool_calls insistent_result ! 1) (endpoint_calls insistent_trace ! 1)
            (results insistent_result ! 1)"
    by blast+
  with t len insistent_run show ?thesis by blast
qed

section \<open>Forced continuation and failed invocations\<close>


lemma directive_inj: "directive a = directive b \<Longrightarrow> a = b"
  by (simp add: directive_def)


lemma catalog_transfer:
  "map_of TOOL_DEFINITIONS ''transfer'' = Some
     \<lparr>td_name = ''transfer'',
      td_description = ''Transfer tokens from one address to another. Requires privateKey, toAddress, amount, and tokenAddress.'',
      td_parameters = object_schema
        [(''privateKey'', str_prop ''Private key of the sender wallet''),
         (''toAddress'', str_prop ''Recipient wallet address''),
         (''amount'', str_prop ''Amount of tokens to transfer''),
         (''tokenAddress'', str_prop ''Contract address of the token'')],
      td_endpoint = backend @ ''/transfer'',
      td_method = ''POST''\<rparr>"
  by (simp add: TOOL_DEFINITIONS_def)

lemma request_for_transfer:
  "request_for ''transfer'' args = Inr (POST (backend @ ''/transfer'') args)"
  by (simp add: request_for_def catalog_transfer substitute_address_def backend_def)




lemma scripted_send_request: "send_request (scripted_env script answer) tr req = answer"
  by (simp add: scripted_env_def)












section \<open>Requests that fail as a whole\<close>

lemma validate_tools_unknown:
  "t \<in> set ts \<Longrightarrow> map_of TOOL_DEFINITIONS t = None \<Longrightarrow>
     \<exists>u. u \<in> set ts \<and> map_of TOOL_DEFINITIONS u = None
         \<and> validate_tools ts = Some (HTTPException 400 (''Unknown tool: '' @ u))"
proof (induction ts)
  case Nil
  then show ?case by simp
next
  case (Cons x ts)
  show ?case
  proof (cases "map_of TOOL_DEFINITIONS x = None")
    case True
    then show ?thesis by (intro exI [of _ x]) simp
  next
    case False
    with Cons.prems have "t \<in> set ts" by auto
    from Cons.IH [OF this Cons.prems(2)] False show ?thesis by auto
  qed
qed

text \<open>
  C3. A request whose edge list references a tool that is not in the catalog is rejected
  before any provider or endpoint call is made (the trace is empty). The
  \<^verbatim>\<open>HTTPException(status_code=400)\<close> that names the tool is raised inside the \<^verbatim>\<open>try\<close> whose
  \<^verbatim>\<open>except Exception\<close> clause turns every exception into a status 500, so what leaves
  \<^verbatim>\<open>chat_with_agent\<close> is a server error, whose detail is \<^verbatim>\<open>str\<close> of the first exception.
\<close>

theorem unknown_tool_rejected_with_status_500:
  assumes "set (order (fst (extract_tools (tools request)))) = fst (extract_tools (tools request))"
    and "t \<in> set (referenced_tools (tools request))"
    and "map_of TOOL_DEFINITIONS t = None"
  shows "\<exists>u. u \<in> set (referenced_tools (tools request)) \<and> map_of TOOL_DEFINITIONS u = None
          \<and> chat_with_agent order str_exn env request
             = (Inl (HTTPException 500 (str_exn (HTTPException 400 (''Unknown tool: '' @ u)))), [])"
proof -
  obtain U F where ex: "extract_tools (tools request) = (U, F)"
    by (cases "extract_tools (tools request)")
  have U: "U = set (referenced_tools (tools request))"
    using foldl_add_connection(1) [of "{}" "[]" "tools request"] ex
    by (simp add: extract_tools_def)
  from assms(1) ex have "set (order U) = U" by simp
  with assms(2) U have "t \<in> set (order U)" by simp
  from validate_tools_unknown [OF this assms(3)] obtain u where
    u: "u \<in> set (order U)" "map_of TOOL_DEFINITIONS u = None"
       "validate_tools (order U) = Some (HTTPException 400 (''Unknown tool: '' @ u))"
    by blast
  have "chat_with_agent order str_exn env request
             = (Inl (HTTPException 500 (str_exn (HTTPException 400 (''Unknown tool: '' @ u)))), [])"
    by (simp add: chat_with_agent_def chat_body_def ex u(3) Let_def)
  moreover from u(1) \<open>set (order U) = U\<close> U have "u \<in> set (referenced_tools (tools request))"
    by simp
  ultimately show ?thesis using u(2) by blast
qed

theorem unknown_tool_rejected_with_status_500_witness:
  "set (listing [''mint''] (fst (extract_tools (tools mint_request))))
     = fst (extract_tools (tools mint_request))
   \<and> ''mint'' \<in> set (referenced_tools (tools mint_request))
   \<and> map_of TOOL_DEFINITIONS ''mint'' = None
   \<and> chat_with_agent (listing [''mint'']) exn_message insistent_env mint_request
       = (Inl (HTTPException 500 ''Unknown tool: mint''), [])"
proof -
  have ex: "extract_tools (tools mint_request) = ({''mint''}, [])"
    by (simp add: extract_tools_def mint_request_def add_connection_def)
  have 1: "set (listing [''mint''] (fst (extract_tools (tools mint_request))))
     = fst (extract_tools (tools mint_request))"
    by (simp add: ex listing_def)
  have 2: "''mint'' \<in> set (referenced_tools (tools mint_request))"
    by (simp add: referenced_tools_def mint_request_def)
  have 3: "map_of TOOL_DEFINITIONS ''mint'' = None"
    by (simp add: TOOL_DEFINITIONS_def)
  have r: "referenced_tools (tools mint_request) = [''mint'']"
    by (simp add: referenced_tools_def mint_request_def declared_successor_def)
  from unknown_tool_rejected_with_status_500
    [where order = "listing [''mint'']" and request = mint_request and t = "''mint''"
       and str_exn = exn_message and env = insistent_env, OF 1 2 3]
  have "chat_with_agent (listing [''mint'']) exn_message insistent_env mint_request
       = (Inl (HTTPException 500 ''Unknown tool: mint''), [])"
    by (auto simp: r exn_message_def)
  with 1 2 3 show ?thesis by blast
qed

lemma scripted_create_completion:
  "create_completion (scripted_env script answer) tr msgs tls =
     (case drop (length (provider_calls tr)) script of
        [] \<Rightarrow> Inl (OtherException ''provider unavailable'')
      | reply # _ \<Rightarrow> Inr reply)"
  by (simp add: scripted_env_def)

lemma extract_balance_request:
  "extract_tools (tools balance_request) = ({''get_balance''}, [])"
  by (simp add: extract_tools_def balance_request_def add_connection_def)

lemma resolve_malformed_call:
  "resolve_arguments pk malformed_call = Inl (JSONDecodeError ''{address: 0xabc'')"
  by (simp add: resolve_arguments_def malformed_call_def json_loads_def)

lemma malformed_run:
  "process_agent_conversation (scripted_env [insistent_reply, malformed_reply] timeout_answer)
       sp ''balance of 0xabc?'' [''get_balance''] [] None 10
     = (Inl (JSONDecodeError ''{address: 0xabc''),
        [ProviderCall [Msg ''system'' sp, Msg ''user'' ''balance of 0xabc?'']
           (Some [balance_tool]) (Inr insistent_reply),
         balance_exchange,
         ProviderCall [Msg ''system'' sp, Msg ''user'' ''balance of 0xabc?'',
                       AssistantMsg None [balance_call], ToolMsg ''call_1'' timed_out]
           (Some [balance_tool]) (Inr malformed_reply)])"
  by (simp add: run_simps scripted_create_completion scripted_send_request
        insistent_reply_def malformed_reply_def get_openai_tools_balance
        resolve_balance_call request_for_balance balance_call_sel resolve_malformed_call
        timed_out_def balance_exchange_def timeout_answer_def)

text \<open>
  C5. A conversation in which the model, on its second turn, emits tool-call arguments that
  are not valid JSON: \<^verbatim>\<open>json.loads\<close> raises inside the loop, nothing catches it before the
  \<^verbatim>\<open>except Exception\<close> of \<^verbatim>\<open>chat_with_agent\<close>, and the whole request fails with status 500.
  The call of the first turn had been executed (one endpoint exchange); its record and its
  result are not returned.
\<close>

theorem malformed_arguments_abort_conversation:
  "fst (chat_with_agent (listing [''get_balance'']) str_exn
          (scripted_env [insistent_reply, malformed_reply] timeout_answer) balance_request)
     = Inl (HTTPException 500 (str_exn (JSONDecodeError ''{address: 0xabc'')))
   \<and> endpoint_calls (snd (chat_with_agent (listing [''get_balance'']) str_exn
          (scripted_env [insistent_reply, malformed_reply] timeout_answer) balance_request))
     = [(GET (backend @ ''/balance/0xabc''), timeout_answer)]"
  by (simp add: chat_with_agent_def chat_body_def extract_balance_request listing_def
        catalog_get_balance Let_def)
     (simp add: balance_request_def malformed_run balance_exchange_def)

section \<open>Tool Invoker: the path placeholder\<close>

text \<open>
  C8 as stated fails on \<^verbatim>\<open>get_balance\<close> invoked with an address and one more field: the
  address is substituted into the URL, the parameter mapping becomes the empty dict, and the
  GET request carries the URL alone. The other field does not remain, in the mapping or in
  what is sent.
\<close>

theorem get_substitution_drops_other_fields_counterexample:
  "substitute_address (backend @ ''/balance/{address}'') ''GET''
       (JObject [(''address'', JString ''0xabc''), (''network'', JString ''mantle'')])
     = Inr (backend @ ''/balance/0xabc'', JObject [])
   \<and> request_for ''get_balance''
       (JObject [(''address'', JString ''0xabc''), (''network'', JString ''mantle'')])
     = Inr (GET (backend @ ''/balance/0xabc''))"
  by (simp add: request_for_def catalog_get_balance substitute_address_def py_contains_def
        py_getitem_def backend_def py_replace.simps)

text \<open>
  C8, amended. For every tool of the catalog whose endpoint contains the placeholder
  \<^verbatim>\<open>{address}\<close> and every parameter dict that supplies a string under \<^verbatim>\<open>address\<close>, the
  value replaces the placeholder in the URL. When the method of the tool is GET, the
  parameter mapping becomes the empty dict and \<^verbatim>\<open>execute_tool\<close> makes one call, a GET
  request of that URL alone: no supplied field is sent outside the URL, so the value is sent
  as a path segment only. For any other method the mapping is left as it was.
\<close>

theorem get_substitution_sends_url_alone:
  assumes "map_of TOOL_DEFINITIONS tool_name = Some tool_def"
    and "is_substring ''{address}'' (td_endpoint tool_def)"
    and "map_of kvs ''address'' = Some (JString a)"
  shows "substitute_address (td_endpoint tool_def) (td_method tool_def) (JObject kvs)
           = Inr (py_replace ''{address}'' a (td_endpoint tool_def),
                  if td_method tool_def = ''GET'' then JObject [] else JObject kvs)
     \<and> (td_method tool_def = ''GET'' \<longrightarrow>
          request_for tool_name (JObject kvs)
            = Inr (GET (py_replace ''{address}'' a (td_endpoint tool_def)))
          \<and> snd (execute_tool env tr tool_name (JObject kvs))
            = tr @ [EndpointCall (GET (py_replace ''{address}'' a (td_endpoint tool_def)))
                      (send_request env tr
                         (GET (py_replace ''{address}'' a (td_endpoint tool_def))))])"
proof -
  from assms(3) have present: "''address'' \<in> fst ` set kvs"
    by (force dest: map_of_SomeD)
  have sub: "substitute_address (td_endpoint tool_def) (td_method tool_def) (JObject kvs)
           = Inr (py_replace ''{address}'' a (td_endpoint tool_def),
                  if td_method tool_def = ''GET'' then JObject [] else JObject kvs)"
    using assms(2) assms(3) present
    by (simp add: substitute_address_def py_contains_def py_getitem_def)
  have "request_for tool_name (JObject kvs)
            = Inr (GET (py_replace ''{address}'' a (td_endpoint tool_def)))"
    if "td_method tool_def = ''GET''"
    using that assms(1) sub by (simp add: request_for_def)
  moreover have "snd (execute_tool env tr tool_name (JObject kvs))
            = tr @ [EndpointCall (GET (py_replace ''{address}'' a (td_endpoint tool_def)))
                      (send_request env tr
                         (GET (py_replace ''{address}'' a (td_endpoint tool_def))))]"
    if "td_method tool_def = ''GET''"
    using that assms(1) sub by (simp add: execute_tool_def perform_def Let_def)
  ultimately show ?thesis using sub by blast
qed

theorem get_substitution_sends_url_alone_witness:
  "map_of TOOL_DEFINITIONS ''get_balance'' \<noteq> None
   \<and> substitute_address (backend @ ''/balance/{address}'') ''GET''
       (JObject [(''network'', JString ''mantle''), (''address'', JString ''0xabc'')])
     = Inr (backend @ ''/balance/0xabc'', JObject [])
   \<and> request_for ''get_balance''
       (JObject [(''network'', JString ''mantle''), (''address'', JString ''0xabc'')])
     = Inr (GET (backend @ ''/balance/0xabc''))
   \<and> snd (execute_tool (scripted_env [] timeout_answer) [] ''get_balance''
            (JObject [(''network'', JString ''mantle''), (''address'', JString ''0xabc'')]))
     = [EndpointCall (GET (backend @ ''/balance/0xabc'')) timeout_answer]"
proof -
  have url: "py_replace ''{address}'' ''0xabc'' (backend @ ''/balance/{address}'')
      = backend @ ''/balance/0xabc''"
    by (simp add: backend_def py_replace.simps)
  have placeholder: "is_substring ''{address}'' (backend @ ''/balance/{address}'')"
    by (simp add: backend_def)
  from get_substitution_sends_url_alone
         [where tool_name = "''get_balance''"
            and kvs = "[(''network'', JString ''mantle''), (''address'', JString ''0xabc'')]"
            and a = "''0xabc''" and env = "scripted_env [] timeout_answer" and tr = "[]",
          OF catalog_get_balance]
  show ?thesis
    using placeholder url by (simp add: catalog_get_balance scripted_send_request)
qed

section \<open>The secret and the tool-call log\<close>

lemma update_absent: "k \<notin> fst ` set kvs \<Longrightarrow> AList.update k v kvs = kvs @ [(k, v)]"
  by (induction kvs) auto

lemma inject_private_key_Inr:
  assumes "inject_private_key secret name emitted = Inr args"
  shows "args = with_secret secret name emitted"
proof (cases "secret_due secret name emitted")
  case True
  then obtain key kvs where
    k: "secret = Some key" "emitted = JObject kvs" "key \<noteq> []" "declares_private_key name"
       "''privateKey'' \<notin> fst ` set kvs"
    by (auto simp: secret_due_def split: option.splits json.splits)
  from k(4) obtain tool_def where
    t: "map_of TOOL_DEFINITIONS name = Some tool_def"
       "''privateKey'' \<in> fst ` set (properties (td_parameters tool_def))"
    by (auto simp: declares_private_key_def split: option.splits)
  from assms k t have "args = JObject (kvs @ [(''privateKey'', JString key)])"
    by (simp add: inject_private_key_def py_contains_def py_setitem_def update_absent)
  with True k show ?thesis by (simp add: with_secret_def)
next
  case False
  have unchanged: "with_secret secret name emitted = emitted"
    using False by (auto simp: with_secret_def split: option.splits json.splits)
  show ?thesis
  proof (cases secret)
    case None
    with assms unchanged show ?thesis by (simp add: inject_private_key_def)
  next
    case (Some key)
    show ?thesis
    proof (cases "key = []")
      case True
      with assms Some unchanged show ?thesis by (simp add: inject_private_key_def)
    next
      case nonempty: False
      with assms Some obtain tool_def where
        t: "map_of TOOL_DEFINITIONS name = Some tool_def"
        by (cases "map_of TOOL_DEFINITIONS name") (auto simp: inject_private_key_def)
      show ?thesis
      proof (cases "''privateKey'' \<in> fst ` set (properties (td_parameters tool_def))")
        case undeclared: False
        with assms Some nonempty t unchanged show ?thesis
          by (simp add: inject_private_key_def)
      next
        case declared: True
        with t have d: "declares_private_key name" by (simp add: declares_private_key_def)
        from assms Some nonempty t declared obtain present where
          p: "py_contains ''privateKey'' emitted = Inr present"
             "(if present then Inr emitted else py_setitem emitted ''privateKey'' (JString key))
                = Inr args"
          by (cases "py_contains ''privateKey'' emitted") (auto simp: inject_private_key_def)
        show ?thesis
        proof (cases present)
          case True
          with p unchanged show ?thesis by simp
        next
          case absent: False
          with p(2) obtain kvs where o: "emitted = JObject kvs"
            by (cases emitted) (auto simp: py_setitem_def)
          with p(1) absent have "''privateKey'' \<notin> fst ` set kvs"
            by (simp add: py_contains_def)
          with Some nonempty d o have "secret_due secret name emitted"
            by (simp add: secret_due_def)
          with False show ?thesis by simp
        qed
      qed
    qed
  qed
qed

lemma mentions_with_secret:
  "mentions key (with_secret (Some key) name emitted)
     = (secret_due (Some key) name emitted \<or> mentions key emitted)"
  by (cases emitted) (auto simp: with_secret_def secret_due_def)

lemma logged_as_records_call: "logged_as secret tc rec \<Longrightarrow> records_call secret tc rec"
proof -
  assume l: "logged_as secret tc rec"
  then obtain emitted where
    d: "tc_arguments tc = ValidJSON emitted"
       "inject_private_key secret (tc_name tc) emitted = Inr (call_parameters rec)"
    by (cases "tc_arguments tc")
       (auto simp: logged_as_def resolve_arguments_def json_loads_def)
  from inject_private_key_Inr [OF d(2)]
  have p: "call_parameters rec = with_secret secret (tc_name tc) emitted" .
  from l have n: "call_tool rec = tc_name tc" by (simp add: logged_as_def)
  show ?thesis
  proof (cases secret)
    case None
    with d(1) p n show ?thesis by (simp add: records_call_def)
  next
    case (Some key)
    with d(1) p n mentions_with_secret [of key "tc_name tc" emitted] show ?thesis
      by (simp add: records_call_def)
  qed
qed

lemma chat_with_agent_Inr:
  assumes "chat_with_agent order str_exn env request = (Inr resp, tr)"
  shows "\<exists>sp av flow r.
       process_agent_conversation env sp (user_message request) av flow (private_key request) 10
         = (Inr r, tr)
       \<and> resp_tool_calls resp = tool_calls r \<and> resp_results resp = results r
       \<and> agent_response r = Some (resp_agent_response resp)"
  using assms
  by (auto simp: chat_with_agent_def chat_body_def Let_def
           split: prod.splits option.splits sum.splits) blast

text \<open>
  C9, amended. In every response \<^verbatim>\<open>chat_with_agent\<close> returns, the tool-call log has one
  entry for each tool call the model emitted, in order. The parameters of an entry are the
  arguments the model emitted with the caller's secret added under \<^verbatim>\<open>privateKey\<close> whenever
  the secret is not empty, the tool declares \<^verbatim>\<open>privateKey\<close> and the emitted arguments are a
  dict without that key, and they are the emitted arguments unchanged in every other case.
  So an entry holds the secret exactly when the secret was added to it or the model itself
  emitted it.
\<close>

theorem tool_call_log_records_resolved_parameters:
  assumes "chat_with_agent order str_exn env request = (Inr resp, tr)"
  shows "list_all2 (records_call (private_key request)) (emitted_calls tr) (resp_tool_calls resp)"
proof -
  from chat_with_agent_Inr [OF assms] obtain sp av flow r where
    run: "process_agent_conversation env sp (user_message request) av flow (private_key request) 10
         = (Inr r, tr)" and eq: "resp_tool_calls resp = tool_calls r"
    by blast
  from process_agent_conversation_consistent [OF run] obtain answer st where
    "r = finish answer st" "consistent (private_key request) st tr" by blast
  then have "list_all2 (logged_as (private_key request)) (emitted_calls tr) (tool_calls r)"
    by (simp add: consistent_def finish_def)
  then show ?thesis
    unfolding eq by (rule list_all2_mono) (rule logged_as_records_call)
qed

lemma extract_secret_request:
  "extract_tools (tools secret_request) = ({''transfer''}, [])"
  by (simp add: extract_tools_def secret_request_def add_connection_def)

lemma get_openai_tools_transfer: "get_openai_tools [''transfer''] \<noteq> []"
  by (simp add: get_openai_tools_def catalog_transfer)

lemma bare_transfer_call_sel:
  "tc_name bare_transfer_call = ''transfer''" "tc_id bare_transfer_call = ''call_4''"
  by (simp_all add: bare_transfer_call_def)

lemma resolve_bare_transfer_call:
  "resolve_arguments (Some ''0xSECRET'') bare_transfer_call
     = Inr (JObject [(''toAddress'', JString ''0xdef''), (''amount'', JString ''5''),
                     (''tokenAddress'', JString ''0xtok''), (''privateKey'', JString ''0xSECRET'')])"
  by (simp add: resolve_arguments_def bare_transfer_call_def json_loads_def
        inject_private_key_def catalog_transfer object_schema_def bare_transfer_arguments_def
        py_contains_def py_setitem_def)

lemma secret_run:
  "process_agent_conversation (scripted_env secret_script receipt_answer) sp
       ''send 5 tokens to 0xdef'' [''transfer''] [] (Some ''0xSECRET'') 10
     = (Inr \<lparr>agent_response = Some ''Transferred.'',
              tool_calls = resp_tool_calls secret_response,
              results = resp_results secret_response,
              conversation_history =
                [Msg ''system'' (sp @ ''\<newline>\<newline>CONTEXT: User's private key is available: 0xSECRET''),
                 Msg ''user'' ''send 5 tokens to 0xdef'',
                 AssistantMsg None [bare_transfer_call],
                 ToolMsg ''call_4'' (hd (resp_results secret_response))]\<rparr>,
        [ProviderCall
           [Msg ''system'' (sp @ ''\<newline>\<newline>CONTEXT: User's private key is available: 0xSECRET''),
            Msg ''user'' ''send 5 tokens to 0xdef'']
           (Some (get_openai_tools [''transfer'']))
           (Inr \<lparr>am_content = None, am_tool_calls = [bare_transfer_call]\<rparr>),
         EndpointCall (POST (backend @ ''/transfer'')
             (JObject [(''toAddress'', JString ''0xdef''), (''amount'', JString ''5''),
                (''tokenAddress'', JString ''0xtok''), (''privateKey'', JString ''0xSECRET'')]))
           receipt_answer,
         ProviderCall
           [Msg ''system'' (sp @ ''\<newline>\<newline>CONTEXT: User's private key is available: 0xSECRET''),
            Msg ''user'' ''send 5 tokens to 0xdef'',
            AssistantMsg None [bare_transfer_call],
            ToolMsg ''call_4'' (hd (resp_results secret_response))]
           (Some (get_openai_tools [''transfer'']))
           (Inr \<lparr>am_content = Some ''Transferred.'', am_tool_calls = []\<rparr>)])"
  by (simp add: run_simps scripted_create_completion scripted_send_request secret_script_def
        get_openai_tools_transfer resolve_bare_transfer_call request_for_transfer
        bare_transfer_call_sel secret_response_def receipt_answer_def)

lemma secret_chat:
  "fst (chat_with_agent (listing [''transfer'']) exn_message
          (scripted_env secret_script receipt_answer) secret_request) = Inr secret_response"
  "emitted_calls (snd (chat_with_agent (listing [''transfer'']) exn_message
          (scripted_env secret_script receipt_answer) secret_request)) = [bare_transfer_call]"
  by (simp_all add: chat_with_agent_def chat_body_def extract_secret_request listing_def
        catalog_transfer Let_def)
     (simp_all add: secret_request_def secret_run secret_response_def)

text \<open>
  C9 as stated fails on a request that supplies the secret \<open>0xSECRET\<close>: the model requests a transfer and emits
  arguments without a \<^verbatim>\<open>privateKey\<close> and without the secret. The tool-call log of the
  response contains the secret.
\<close>

theorem secret_in_tool_call_log_counterexample:
  "private_key secret_request = Some ''0xSECRET''
   \<and> fst (chat_with_agent (listing [''transfer'']) exn_message
          (scripted_env secret_script receipt_answer) secret_request) = Inr secret_response
   \<and> list_ex (\<lambda>rec. mentions ''0xSECRET'' (call_parameters rec)) (resp_tool_calls secret_response)
   \<and> emitted_calls (snd (chat_with_agent (listing [''transfer'']) exn_message
          (scripted_env secret_script receipt_answer) secret_request)) = [bare_transfer_call]
   \<and> tc_arguments bare_transfer_call = ValidJSON bare_transfer_arguments
   \<and> \<not> mentions ''0xSECRET'' bare_transfer_arguments"
  by (simp add: secret_chat)
     (simp add: secret_request_def secret_response_def bare_transfer_call_def
        bare_transfer_arguments_def)

theorem tool_call_log_records_resolved_parameters_witness:
  "chat_with_agent (listing [''transfer'']) exn_message
       (scripted_env secret_script receipt_answer) secret_request
     = (Inr secret_response,
        snd (chat_with_agent (listing [''transfer'']) exn_message
               (scripted_env secret_script receipt_answer) secret_request))
   \<and> list_all2 (records_call (Some ''0xSECRET'')) [bare_transfer_call]
         (resp_tool_calls secret_response)
   \<and> declares_private_key ''transfer''
   \<and> secret_due (Some ''0xSECRET'') ''transfer'' bare_transfer_arguments"
proof -
  let ?run = "chat_with_agent (listing [''transfer'']) exn_message
       (scripted_env secret_script receipt_answer) secret_request"
  have run: "?run = (Inr secret_response, snd ?run)"
    using secret_chat(1) by (simp add: prod_eq_iff)
  have pk: "private_key secret_request = Some ''0xSECRET''"
    by (simp add: secret_request_def)
  from tool_call_log_records_resolved_parameters [OF run]
  have "list_all2 (records_call (Some ''0xSECRET'')) [bare_transfer_call]
         (resp_tool_calls secret_response)"
    by (simp add: secret_chat(2) pk)
  moreover have declared: "declares_private_key ''transfer''"
    by (simp add: declares_private_key_def catalog_transfer object_schema_def)
  moreover have "secret_due (Some ''0xSECRET'') ''transfer'' bare_transfer_arguments"
    using declared by (simp add: secret_due_def bare_transfer_arguments_def)
  ultimately show ?thesis using run by blast
qed

end
